theory Spec2Isabelle
  imports Main
begin

section \<open>The ParameterMap container of include/ParameterMap.h\<close>

text \<open>
  \<^verbatim>\<open>ParameterMap<PARAMETERS...>\<close> keeps, for each of its N parameters, the hash of the
  parameter's name and a \<^verbatim>\<open>std::optional\<close> of the parameter's base type
  (\<^verbatim>\<open>remove_cv_t<remove_reference_t<P>>\<close>). The class is a template over arbitrary C++
  types, so the model is polymorphic: \<open>'ty\<close> are the base types, \<open>'v\<close> the values,
  \<open>'h\<close> the values of \<^verbatim>\<open>std::size_t\<close> that \<^verbatim>\<open>std::hash\<close> returns.
\<close>

subsection \<open>What the header takes from the C++ standard library\<close>

text \<open>
  The three library facilities the header relies on are parameters of the model:
  \<^item> \<open>std_hash\<close>: \<^verbatim>\<open>std::hash<std::string>\<close>, used by the constructor, and
    \<^verbatim>\<open>std::hash<std::string_view>\<close>, used by \<^verbatim>\<open>ensure_name_matches\<close>; the standard makes the
    two agree on equal character sequences, so they are one function here;
  \<^item> \<open>is_convertible_v From To\<close>: \<^verbatim>\<open>std::is_convertible_v<From, To>\<close>;
  \<^item> \<open>convert From To v\<close>: the value that
    \<^verbatim>\<open>std::optional<To>::operator=\<close> stores when it is given the value \<open>v\<close> of type
    \<open>From\<close>.
\<close>

record ('ty, 'h, 'v) cxx =
  std_hash :: "string \<Rightarrow> 'h"
  is_convertible_v :: "'ty \<Rightarrow> 'ty \<Rightarrow> bool"
  convert :: "'ty \<Rightarrow> 'ty \<Rightarrow> 'v \<Rightarrow> 'v"

subsection \<open>Exceptions and other ways not to return\<close>

text \<open>
  The first three constructors are the exceptions the header throws.
  \<open>bad_optional_access\<close> is what \<^verbatim>\<open>optional::value()\<close> throws on an empty optional,
  \<open>undefined_behaviour\<close> stands for dereferencing a null pointer or an empty optional,
  and \<open>ill_formed\<close> for a call the compiler rejects (a \<^verbatim>\<open>requires\<close> clause that does
  not hold, \<^verbatim>\<open>std::get<INDEX>\<close> with \<open>INDEX\<close> out of range, an assignment that has no
  conversion).
\<close>

datatype signal =
    out_of_range
  | invalid_argument
  | runtime_error
  | bad_optional_access
  | undefined_behaviour
  | ill_formed

subsection \<open>Parameter declarations, value categories and callables\<close>

text \<open>
  \<open>submit\<close> depends on how types are declared, not only on their base types. A type
  of the pack \<open>PARAMETERS\<close>, and a parameter of a function given to \<open>submit\<close>, is a
  base type with a declarator: \<^verbatim>\<open>T\<close>, \<^verbatim>\<open>const T\<close>, \<^verbatim>\<open>T&\<close>, \<^verbatim>\<open>const T&\<close>, \<^verbatim>\<open>T&&\<close> or
  \<^verbatim>\<open>const T&&\<close>. An argument expression has a value category, with or without
  \<^verbatim>\<open>const\<close>.
  \<^item> \<open>declval d\<close> is the category of \<^verbatim>\<open>std::declval<P>()\<close> for a type \<open>P\<close> declared
    with \<open>d\<close>: the argument \<^verbatim>\<open>std::is_invocable_v<F, P>\<close> tries.
  \<^item> \<open>binds d c\<close> says whether a parameter declared with \<open>d\<close> can be initialised
    from an argument of category \<open>c\<close> and the parameter's own base type (the type is
    taken to be copyable): a non-const lvalue reference takes only a non-const
    lvalue, an rvalue reference only rvalues, everything else takes any argument.
\<close>

datatype declarator =
    by_value
  | by_const_value
  | by_lvalue_reference
  | by_const_lvalue_reference
  | by_rvalue_reference
  | by_const_rvalue_reference

datatype value_category = lvalue | const_lvalue | rvalue | const_rvalue

fun declval :: "declarator \<Rightarrow> value_category" where
  "declval by_value = rvalue"
| "declval by_const_value = const_rvalue"
| "declval by_lvalue_reference = lvalue"
| "declval by_const_lvalue_reference = const_lvalue"
| "declval by_rvalue_reference = rvalue"
| "declval by_const_rvalue_reference = const_rvalue"

fun binds :: "declarator \<Rightarrow> value_category \<Rightarrow> bool" where
  "binds by_value c = True"
| "binds by_const_value c = True"
| "binds by_const_lvalue_reference c = True"
| "binds by_lvalue_reference c = (c = lvalue)"
| "binds by_rvalue_reference c = (c = rvalue)"
| "binds by_const_rvalue_reference c = (c = rvalue \<or> c = const_rvalue)"

text \<open>
  A function given to \<open>submit\<close>: \<open>takes f i\<close> is the declarator of its parameter at
  position \<open>i\<close>, whose base type is that of the argument it gets there; \<open>body f\<close> is
  what a call does with the argument values (from the initialisation of the
  parameters on), to the function's own world \<open>'w\<close> (which is not the container) and
  as its result. The body takes the arguments as a list of any length, so the number
  of parameters is not a separate datum.
\<close>

record ('v, 'w, 'r) callable =
  takes :: "nat \<Rightarrow> declarator"
  body :: "'v list \<Rightarrow> 'w \<Rightarrow> 'r \<times> 'w"

text \<open>
  \<open>invocable_with f cs\<close>: \<^verbatim>\<open>std::invoke(f, args...)\<close> is well-formed for arguments of
  the categories \<open>cs\<close>.
\<close>

definition invocable_with :: "('v, 'w, 'r) callable \<Rightarrow> value_category list \<Rightarrow> bool" where
  "invocable_with f cs = list_all (\<lambda>i. binds (takes f i) (cs ! i)) [0..<length cs]"

subsection \<open>The data members\<close>

text \<open>
  \<^verbatim>\<open>std::array<std::size_t, n_parameters> m_parameter_name_hashes\<close> and
  \<^verbatim>\<open>std::tuple<std::optional<Base>...> m_stored_values\<close>. The tuple's static type carries
  the base type of every element; the model keeps it beside the optional. The pack
  \<open>PARAMETERS\<close> of the class template, each type as its declarator and its base type,
  is kept too: the \<^verbatim>\<open>requires\<close> clause of \<open>submit\<close> reads it.
\<close>

record ('ty, 'h, 'v) ParameterMap =
  PARAMETERS :: "(declarator \<times> 'ty) list"
  m_parameter_name_hashes :: "'h list"
  m_stored_values :: "('ty \<times> 'v option) list"

definition n_parameters :: "('ty, 'h, 'v) ParameterMap \<Rightarrow> nat" where
  "n_parameters pm = length (m_stored_values pm)"

text \<open>The array has exactly \<open>n_parameters\<close> entries: this is part of the C++ type.\<close>

definition well_formed :: "('ty, 'h, 'v) ParameterMap \<Rightarrow> bool" where
  "well_formed pm \<longleftrightarrow> length (m_parameter_name_hashes pm) = n_parameters pm"

text \<open>
  The constructor: one name per parameter (the \<^verbatim>\<open>requires\<close> clause), every name hashed,
  every optional empty. \<open>pack\<close> is the template argument list.
\<close>

definition ParameterMap_ctor ::
  "('ty, 'h, 'v) cxx \<Rightarrow> (declarator \<times> 'ty) list \<Rightarrow> string list
     \<Rightarrow> signal + ('ty, 'h, 'v) ParameterMap" where
  "ParameterMap_ctor E pack names =
     (if length pack = length names
      then Inr \<lparr> PARAMETERS = pack,
                 m_parameter_name_hashes = map (std_hash E) names,
                 m_stored_values = map (\<lambda>p. (snd p, None)) pack \<rparr>
      else Inl ill_formed)"

subsection \<open>Utilities\<close>

text \<open>
  \<^verbatim>\<open>detail::static_for<First, Last>(f)\<close> calls \<open>f\<close> on \<open>First\<close>, \<open>First + 1\<close>, ... below
  \<open>Last\<close>. The callable works on what it captured by reference, the state \<open>s\<close>; an
  exception it throws ends the loop and leaves the state as it is at that moment.
\<close>

function static_for ::
  "nat \<Rightarrow> nat \<Rightarrow> (nat \<Rightarrow> 's \<Rightarrow> (signal + unit) \<times> 's) \<Rightarrow> 's \<Rightarrow> (signal + unit) \<times> 's" where
  "static_for First Last f s =
     (if First < Last
      then (case f First s of
              (Inl e, s') \<Rightarrow> (Inl e, s')
            | (Inr _, s') \<Rightarrow> static_for (First + 1) Last f s')
      else (Inr (), s))"
  by pat_completeness auto
termination
  by (relation "measure (\<lambda>(First, Last, f, s). Last - First)") auto

declare static_for.simps [simp del]

text \<open>
  \<^verbatim>\<open>detail::apply_optionals(f, t)\<close>: \<^verbatim>\<open>std::invoke(f, *std::get<I>(std::forward<Tuple>(t))...)\<close>.
  Each argument is the dereferenced optional, so it has the category \<open>c\<close> of the tuple
  expression \<open>t\<close>; where the function cannot take such arguments the call expression
  is ill-formed and the function is not applied. Dereferencing an empty optional is
  undefined.
\<close>

definition apply_optionals_impl ::
  "('v, 'w, 'r) callable \<Rightarrow> value_category \<Rightarrow> ('ty \<times> 'v option) list \<Rightarrow> 'w
     \<Rightarrow> (signal + 'r) \<times> 'w" where
  "apply_optionals_impl f c t w =
     (if invocable_with f (map (\<lambda>x. c) t)
      then (case those (map snd t) of
              None \<Rightarrow> (Inl undefined_behaviour, w)
            | Some args \<Rightarrow> (case body f args w of (r, w') \<Rightarrow> (Inr r, w')))
      else (Inl ill_formed, w))"

definition apply_optionals ::
  "('v, 'w, 'r) callable \<Rightarrow> value_category \<Rightarrow> ('ty \<times> 'v option) list \<Rightarrow> 'w
     \<Rightarrow> (signal + 'r) \<times> 'w" where
  "apply_optionals f c t w = apply_optionals_impl f c t w"

subsection \<open>Private members\<close>

definition throw_if_index_out_of_range ::
  "('ty, 'h, 'v) ParameterMap \<Rightarrow> nat \<Rightarrow> signal + unit" where
  "throw_if_index_out_of_range pm index =
     (if index \<ge> n_parameters pm then Inl out_of_range else Inr ())"

text \<open>\<^verbatim>\<open>is_set<INDEX>()\<close>, with \<^verbatim>\<open>requires(INDEX < sizeof...(PARAMETERS))\<close>.\<close>

definition is_set_ct :: "nat \<Rightarrow> ('ty, 'h, 'v) ParameterMap \<Rightarrow> signal + bool" where
  "is_set_ct INDEX pm =
     (if INDEX < n_parameters pm
      then Inr (snd (m_stored_values pm ! INDEX) \<noteq> None)
      else Inl ill_formed)"

definition throw_if_no_value_stored_for_index ::
  "nat \<Rightarrow> ('ty, 'h, 'v) ParameterMap \<Rightarrow> signal + unit" where
  "throw_if_no_value_stored_for_index INDEX pm =
     (case is_set_ct INDEX pm of
        Inl e \<Rightarrow> Inl e
      | Inr b \<Rightarrow> if \<not> b then Inl runtime_error else Inr ())"

definition TruePredicate :: "nat \<Rightarrow> bool" where
  "TruePredicate index = True"

definition BaseTypeAt :: "('ty, 'h, 'v) ParameterMap \<Rightarrow> nat \<Rightarrow> 'ty" where
  "BaseTypeAt pm INDEX = fst (m_stored_values pm ! INDEX)"

definition IsSettableFrom ::
  "('ty, 'h, 'v) cxx \<Rightarrow> ('ty, 'h, 'v) ParameterMap \<Rightarrow> 'ty \<Rightarrow> nat \<Rightarrow> bool" where
  "IsSettableFrom E pm T index = is_convertible_v E T (BaseTypeAt pm index)"

definition IsGettableAs :: "('ty, 'h, 'v) ParameterMap \<Rightarrow> 'ty \<Rightarrow> nat \<Rightarrow> bool" where
  "IsGettableAs pm T index \<longleftrightarrow> T = BaseTypeAt pm index"

text \<open>
  \<^verbatim>\<open>pass_first_index_matching_predicate_to<CT_PREDICATE>(runtime_predicate, func)\<close>.
  The local \<open>found\<close> travels with the state \<open>a\<close> that \<open>func\<close> captured; the run-time
  predicate is only evaluated while nothing has been found, and may throw.
  \<open>matching_step\<close> is the body of the lambda given to \<^verbatim>\<open>static_for\<close>; \<open>n\<close> is
  \<^verbatim>\<open>n_parameters\<close>.
\<close>

definition matching_step ::
  "(nat \<Rightarrow> bool) \<Rightarrow> (nat \<Rightarrow> signal + bool) \<Rightarrow> (nat \<Rightarrow> 'a \<Rightarrow> (signal + unit) \<times> 'a)
     \<Rightarrow> nat \<Rightarrow> bool \<times> 'a \<Rightarrow> (signal + unit) \<times> bool \<times> 'a" where
  "matching_step CT_PREDICATE runtime_predicate func i s =
     (case s of (found, a) \<Rightarrow>
        if CT_PREDICATE i
        then (if found then (Inr (), (found, a))
              else (case runtime_predicate i of
                      Inl e \<Rightarrow> (Inl e, (found, a))
                    | Inr b \<Rightarrow>
                        if b
                        then (case func i a of (r, a') \<Rightarrow> (r, (True, a')))
                        else (Inr (), (found, a))))
        else (Inr (), (found, a)))"

definition pass_first_index_matching_predicate_to ::
  "nat \<Rightarrow> (nat \<Rightarrow> bool) \<Rightarrow> (nat \<Rightarrow> signal + bool) \<Rightarrow> (nat \<Rightarrow> 'a \<Rightarrow> (signal + unit) \<times> 'a)
     \<Rightarrow> 'a \<Rightarrow> (signal + unit) \<times> 'a" where
  "pass_first_index_matching_predicate_to n CT_PREDICATE runtime_predicate func a =
     (case static_for 0 n (matching_step CT_PREDICATE runtime_predicate func) (False, a) of
        (Inl e, (found, a')) \<Rightarrow> (Inl e, a')
      | (Inr _, (found, a')) \<Rightarrow>
          if \<not> found then (Inl invalid_argument, a') else (Inr (), a'))"

text \<open>
  \<^verbatim>\<open>ensure_name_matches(name)\<close>: the name is hashed once; the predicate compares hashes
  only. \<^verbatim>\<open>std::array::at\<close> throws \<^verbatim>\<open>std::out_of_range\<close> past the end.
\<close>

definition ensure_name_matches ::
  "('ty, 'h, 'v) cxx \<Rightarrow> ('ty, 'h, 'v) ParameterMap \<Rightarrow> string \<Rightarrow> nat \<Rightarrow> signal + bool" where
  "ensure_name_matches E pm name =
     (let name_hash = std_hash E name
      in (\<lambda>i. if i < length (m_parameter_name_hashes pm)
               then Inr (m_parameter_name_hashes pm ! i = name_hash)
               else Inl out_of_range))"

subsection \<open>set\<close>

text \<open>
  \<^verbatim>\<open>set<INDEX>(value)\<close>: \<^verbatim>\<open>std::get<INDEX>(m_stored_values) = std::forward<T>(value)\<close>.
  The statement compiles when \<open>INDEX\<close> is below N and the optional of the slot's base
  type can be assigned from \<open>T\<close>; the model takes \<open>is_convertible_v\<close>, the relation
  \<open>IsSettableFrom\<close> tests, for the second condition. The optional then holds the value
  converted to the slot's base type.
\<close>

definition set_ct ::
  "('ty, 'h, 'v) cxx \<Rightarrow> nat \<Rightarrow> 'ty \<Rightarrow> 'v \<Rightarrow> ('ty, 'h, 'v) ParameterMap
     \<Rightarrow> (signal + unit) \<times> ('ty, 'h, 'v) ParameterMap" where
  "set_ct E INDEX T val pm =
     (if INDEX < n_parameters pm \<and> is_convertible_v E T (BaseTypeAt pm INDEX)
      then (Inr (),
            pm\<lparr> m_stored_values :=
                  (m_stored_values pm)
                    [INDEX := (BaseTypeAt pm INDEX, Some (convert E T (BaseTypeAt pm INDEX) val))] \<rparr>)
      else (Inl ill_formed, pm))"

text \<open>\<^verbatim>\<open>set(const std::string_view &name, T &&value)\<close>\<close>

definition set_by_name ::
  "('ty, 'h, 'v) cxx \<Rightarrow> string \<Rightarrow> 'ty \<Rightarrow> 'v \<Rightarrow> ('ty, 'h, 'v) ParameterMap
     \<Rightarrow> (signal + unit) \<times> ('ty, 'h, 'v) ParameterMap" where
  "set_by_name E name T val pm =
     pass_first_index_matching_predicate_to (n_parameters pm)
       (IsSettableFrom E pm T) (ensure_name_matches E pm name)
       (\<lambda>i. set_ct E i T val) pm"

text \<open>\<^verbatim>\<open>set(size_t index, T &&value)\<close>\<close>

definition set_by_index ::
  "('ty, 'h, 'v) cxx \<Rightarrow> nat \<Rightarrow> 'ty \<Rightarrow> 'v \<Rightarrow> ('ty, 'h, 'v) ParameterMap
     \<Rightarrow> (signal + unit) \<times> ('ty, 'h, 'v) ParameterMap" where
  "set_by_index E index T val pm =
     (case throw_if_index_out_of_range pm index of
        Inl e \<Rightarrow> (Inl e, pm)
      | Inr _ \<Rightarrow>
          pass_first_index_matching_predicate_to (n_parameters pm)
            (IsSettableFrom E pm T) (\<lambda>i. Inr (i = index))
            (\<lambda>i. set_ct E i T val) pm)"

subsection \<open>get\<close>

text \<open>
  The by-name and by-index overloads keep a pointer \<open>ret\<close> to the optional of the slot
  that was found, null at first (\<open>None\<close>), and return \<^verbatim>\<open>ret->value()\<close>
  (\<open>deref_value\<close>). \<open>get_func\<close> is the lambda they hand to the search: it throws if the
  slot is empty and sets \<open>ret\<close> otherwise. All three overloads are \<^verbatim>\<open>const\<close>: they read
  the container and return a value or throw.
\<close>

definition deref_value :: "'v option option \<Rightarrow> signal + 'v" where
  "deref_value ret =
     (case ret of
        None \<Rightarrow> Inl undefined_behaviour
      | Some None \<Rightarrow> Inl bad_optional_access
      | Some (Some v) \<Rightarrow> Inr v)"

definition get_func ::
  "('ty, 'h, 'v) ParameterMap \<Rightarrow> nat \<Rightarrow> 'v option option \<Rightarrow> (signal + unit) \<times> 'v option option" where
  "get_func pm i ret =
     (case throw_if_no_value_stored_for_index i pm of
        Inl e \<Rightarrow> (Inl e, ret)
      | Inr _ \<Rightarrow> (Inr (), Some (snd (m_stored_values pm ! i))))"

text \<open>\<^verbatim>\<open>get<T>(const std::string_view &name)\<close>\<close>

definition get_by_name ::
  "('ty, 'h, 'v) cxx \<Rightarrow> 'ty \<Rightarrow> string \<Rightarrow> ('ty, 'h, 'v) ParameterMap \<Rightarrow> signal + 'v" where
  "get_by_name E T name pm =
     (case pass_first_index_matching_predicate_to (n_parameters pm)
             (IsGettableAs pm T) (ensure_name_matches E pm name) (get_func pm) None of
        (Inl e, ret) \<Rightarrow> Inl e
      | (Inr _, ret) \<Rightarrow> deref_value ret)"

text \<open>\<^verbatim>\<open>get<T>(size_t index)\<close>\<close>

definition get_by_index ::
  "'ty \<Rightarrow> nat \<Rightarrow> ('ty, 'h, 'v) ParameterMap \<Rightarrow> signal + 'v" where
  "get_by_index T index pm =
     (case throw_if_index_out_of_range pm index of
        Inl e \<Rightarrow> Inl e
      | Inr _ \<Rightarrow>
          (case pass_first_index_matching_predicate_to (n_parameters pm)
                  (IsGettableAs pm T) (\<lambda>i. Inr (i = index)) (get_func pm) None of
             (Inl e, ret) \<Rightarrow> Inl e
           | (Inr _, ret) \<Rightarrow> deref_value ret))"

text \<open>\<^verbatim>\<open>get<INDEX>()\<close>, with \<^verbatim>\<open>requires(INDEX < sizeof...(PARAMETERS))\<close>\<close>

definition get_ct :: "nat \<Rightarrow> ('ty, 'h, 'v) ParameterMap \<Rightarrow> signal + 'v" where
  "get_ct INDEX pm =
     (if INDEX < n_parameters pm
      then (case throw_if_no_value_stored_for_index INDEX pm of
              Inl e \<Rightarrow> Inl e
            | Inr _ \<Rightarrow> deref_value (Some (snd (m_stored_values pm ! INDEX))))
      else Inl ill_formed)"

subsection \<open>is\_set\<close>

text \<open>
  \<open>is_set_func\<close> is the lambda of the by-name and by-index overloads:
  \<^verbatim>\<open>ret = is_set<i.value>()\<close>, with \<open>ret\<close> false at first.
\<close>

definition is_set_func ::
  "('ty, 'h, 'v) ParameterMap \<Rightarrow> nat \<Rightarrow> bool \<Rightarrow> (signal + unit) \<times> bool" where
  "is_set_func pm i ret =
     (case is_set_ct i pm of
        Inl e \<Rightarrow> (Inl e, ret)
      | Inr b \<Rightarrow> (Inr (), b))"

text \<open>\<^verbatim>\<open>is_set(const std::string_view &name)\<close>\<close>

definition is_set_by_name ::
  "('ty, 'h, 'v) cxx \<Rightarrow> string \<Rightarrow> ('ty, 'h, 'v) ParameterMap \<Rightarrow> signal + bool" where
  "is_set_by_name E name pm =
     (case pass_first_index_matching_predicate_to (n_parameters pm)
             TruePredicate (ensure_name_matches E pm name) (is_set_func pm) False of
        (Inl e, ret) \<Rightarrow> Inl e
      | (Inr _, ret) \<Rightarrow> Inr ret)"

text \<open>\<^verbatim>\<open>is_set(size_t index)\<close>: the body has no call of \<^verbatim>\<open>throw_if_index_out_of_range\<close>.\<close>

definition is_set_by_index :: "nat \<Rightarrow> ('ty, 'h, 'v) ParameterMap \<Rightarrow> signal + bool" where
  "is_set_by_index index pm =
     (case pass_first_index_matching_predicate_to (n_parameters pm)
             TruePredicate (\<lambda>i. Inr (i = index)) (is_set_func pm) False of
        (Inl e, ret) \<Rightarrow> Inl e
      | (Inr _, ret) \<Rightarrow> Inr ret)"

subsection \<open>clear, size and submit\<close>

text \<open>
  \<^verbatim>\<open>clear()\<close>: \<^verbatim>\<open>reset()\<close> on every optional, in index order; \<open>reset_at\<close> is the lambda
  \<^verbatim>\<open>std::get<i.value>(m_stored_values).reset()\<close>.
\<close>

definition reset_at ::
  "nat \<Rightarrow> ('ty, 'h, 'v) ParameterMap \<Rightarrow> (signal + unit) \<times> ('ty, 'h, 'v) ParameterMap" where
  "reset_at i pm =
     (if i < n_parameters pm
      then (Inr (), pm\<lparr> m_stored_values := (m_stored_values pm)[i := (BaseTypeAt pm i, None)] \<rparr>)
      else (Inl ill_formed, pm))"

definition clear ::
  "('ty, 'h, 'v) ParameterMap \<Rightarrow> (signal + unit) \<times> ('ty, 'h, 'v) ParameterMap" where
  "clear pm = static_for 0 (n_parameters pm) reset_at pm"

definition size_pm :: "('ty, 'h, 'v) ParameterMap \<Rightarrow> nat" where
  "size_pm pm = n_parameters pm"

text \<open>
  \<^verbatim>\<open>submit(function)\<close>, with
  \<^verbatim>\<open>requires(std::is_invocable_v<FUNCTION, PARAMETERS...>)\<close>: \<open>is_invocable_v\<close> is that
  clause, and a function that fails it is refused. The loop (its lambda is
  \<open>submit_check\<close>) throws at the first empty slot; otherwise
  \<^verbatim>\<open>apply_optionals(function, m_stored_values)\<close> is reached. The member is \<^verbatim>\<open>const\<close>, so
  \<open>m_stored_values\<close> is a const lvalue there and the function gets const lvalues. The
  model returns the container as it is after the call, beside the outcome and the
  function's world.
\<close>

definition is_invocable_v :: "('v, 'w, 'r) callable \<Rightarrow> (declarator \<times> 'ty) list \<Rightarrow> bool" where
  "is_invocable_v FUNCTION pack = invocable_with FUNCTION (map (\<lambda>p. declval (fst p)) pack)"

definition submit_check ::
  "nat \<Rightarrow> ('ty, 'h, 'v) ParameterMap \<Rightarrow> (signal + unit) \<times> ('ty, 'h, 'v) ParameterMap" where
  "submit_check i pm =
     (case is_set_ct i pm of
        Inl e \<Rightarrow> (Inl e, pm)
      | Inr b \<Rightarrow> if \<not> b then (Inl runtime_error, pm) else (Inr (), pm))"

definition submit ::
  "('ty, 'h, 'v) ParameterMap \<Rightarrow> ('v, 'w, 'r) callable \<Rightarrow> 'w
     \<Rightarrow> (signal + 'r) \<times> ('ty, 'h, 'v) ParameterMap \<times> 'w" where
  "submit pm function w =
     (if is_invocable_v function (PARAMETERS pm)
      then (case static_for 0 (n_parameters pm) submit_check pm of
              (Inl e, pm') \<Rightarrow> (Inl e, pm', w)
            | (Inr _, pm') \<Rightarrow>
                (case apply_optionals function const_lvalue (m_stored_values pm') w of
                   (r, w') \<Rightarrow> (r, pm', w')))
      else (Inl ill_formed, pm, w))"

subsection \<open>Addressing modes\<close>

text \<open>
  The three ways to name a slot, as the test fixture's \<^verbatim>\<open>SetMemberType\<close> and
  \<^verbatim>\<open>GetMemberType\<close> enumerate them, each with its key.
\<close>

datatype addressing = BY_NAME string | BY_RT_INDEX nat | BY_CT_INDEX nat

definition set_via ::
  "('ty, 'h, 'v) cxx \<Rightarrow> addressing \<Rightarrow> 'ty \<Rightarrow> 'v \<Rightarrow> ('ty, 'h, 'v) ParameterMap
     \<Rightarrow> (signal + unit) \<times> ('ty, 'h, 'v) ParameterMap" where
  "set_via E m T val pm =
     (case m of
        BY_NAME name \<Rightarrow> set_by_name E name T val pm
      | BY_RT_INDEX index \<Rightarrow> set_by_index E index T val pm
      | BY_CT_INDEX INDEX \<Rightarrow> set_ct E INDEX T val pm)"

definition get_via ::
  "('ty, 'h, 'v) cxx \<Rightarrow> addressing \<Rightarrow> 'ty \<Rightarrow> ('ty, 'h, 'v) ParameterMap \<Rightarrow> signal + 'v" where
  "get_via E m T pm =
     (case m of
        BY_NAME name \<Rightarrow> get_by_name E T name pm
      | BY_RT_INDEX index \<Rightarrow> get_by_index T index pm
      | BY_CT_INDEX INDEX \<Rightarrow> get_ct INDEX pm)"

definition is_set_via ::
  "('ty, 'h, 'v) cxx \<Rightarrow> addressing \<Rightarrow> ('ty, 'h, 'v) ParameterMap \<Rightarrow> signal + bool" where
  "is_set_via E m pm =
     (case m of
        BY_NAME name \<Rightarrow> is_set_by_name E name pm
      | BY_RT_INDEX index \<Rightarrow> is_set_by_index index pm
      | BY_CT_INDEX INDEX \<Rightarrow> is_set_ct INDEX pm)"

subsection \<open>An instance: the container of the test suite\<close>

text \<open>
  The tests work on \<^verbatim>\<open>ParameterMap<int, bool, const std::string&>\<close> with the names
  \<^verbatim>\<open>"myInt", "enabled", "name"\<close>, and set the third parameter from string literals.
  The instance below has these base types, and \<open>T_char_array\<close> for the type of a string
  literal. Its conversions are those of C++: \<^verbatim>\<open>int\<close> and \<^verbatim>\<open>bool\<close> convert to each
  other, a character array converts to \<^verbatim>\<open>std::string\<close> and (as a pointer) to
  \<^verbatim>\<open>bool\<close>. \<open>IntV\<close> carries the number an \<^verbatim>\<open>int\<close> stands for; the instance only
  uses small ones. The hash of the instance is the name itself, a hash without
  collisions.
\<close>

datatype cxx_type = T_int | T_bool | T_string | T_char_array

datatype cxx_value = IntV int | BoolV bool | StringV string

fun example_convertible :: "cxx_type \<Rightarrow> cxx_type \<Rightarrow> bool" where
  "example_convertible T_int T_int = True"
| "example_convertible T_int T_bool = True"
| "example_convertible T_bool T_bool = True"
| "example_convertible T_bool T_int = True"
| "example_convertible T_string T_string = True"
| "example_convertible T_char_array T_string = True"
| "example_convertible T_char_array T_bool = True"
| "example_convertible _ _ = False"

fun example_convert :: "cxx_type \<Rightarrow> cxx_type \<Rightarrow> cxx_value \<Rightarrow> cxx_value" where
  "example_convert T_int T_bool (IntV n) = BoolV (n \<noteq> 0)"
| "example_convert T_bool T_int (BoolV b) = IntV (if b then 1 else 0)"
| "example_convert T_char_array T_bool v = BoolV True"
| "example_convert _ _ v = v"

definition example_env :: "(cxx_type, string, cxx_value) cxx" where
  "example_env =
     \<lparr> std_hash = (\<lambda>s. s), is_convertible_v = example_convertible, convert = example_convert \<rparr>"

definition suite_map :: "(cxx_type, string, cxx_value) ParameterMap" where
  "suite_map =
     \<lparr> PARAMETERS = [(by_value, T_int), (by_value, T_bool), (by_const_lvalue_reference, T_string)],
       m_parameter_name_hashes = [''myInt'', ''enabled'', ''name''],
       m_stored_values = [(T_int, None), (T_bool, None), (T_string, None)] \<rparr>"

text \<open>The same container after \<^verbatim>\<open>set("myInt", 6)\<close>, \<^verbatim>\<open>set("enabled", true)\<close> and
  \<^verbatim>\<open>set("name", "Homer Simpson")\<close>, as in the test of \<^verbatim>\<open>submit\<close>.\<close>

definition full_map :: "(cxx_type, string, cxx_value) ParameterMap" where
  "full_map =
     \<lparr> PARAMETERS = [(by_value, T_int), (by_value, T_bool), (by_const_lvalue_reference, T_string)],
       m_parameter_name_hashes = [''myInt'', ''enabled'', ''name''],
       m_stored_values =
         [(T_int, Some (IntV 6)), (T_bool, Some (BoolV True)),
          (T_string, Some (StringV ''Homer Simpson''))] \<rparr>"

text \<open>\<^verbatim>\<open>ParameterMap<std::string, int, int>\<close> constructed with the same name three times.\<close>

definition same_name_map :: "(cxx_type, string, cxx_value) ParameterMap" where
  "same_name_map =
     \<lparr> PARAMETERS = [(by_value, T_string), (by_value, T_int), (by_value, T_int)],
       m_parameter_name_hashes = [''x'', ''x'', ''x''],
       m_stored_values = [(T_string, None), (T_int, None), (T_int, Some (IntV 7))] \<rparr>"

text \<open>
  Functions to submit. \<open>counting g\<close> returns what \<open>g\<close> returns and counts its calls in
  its world, as a test with a side-effect counter does; \<open>pure g\<close> has no effect. Both
  take every parameter by const reference.
\<close>

definition counting :: "('v list \<Rightarrow> 'r) \<Rightarrow> ('v, nat, 'r) callable" where
  "counting g =
     \<lparr> takes = (\<lambda>i. by_const_lvalue_reference), body = (\<lambda>args calls. (g args, calls + 1)) \<rparr>"

definition pure :: "('v list \<Rightarrow> 'r) \<Rightarrow> ('v, 'w, 'r) callable" where
  "pure g = \<lparr> takes = (\<lambda>i. by_const_lvalue_reference), body = (\<lambda>args w. (g args, w)) \<rparr>"

text \<open>
  \<^verbatim>\<open>ParameterMap<int>\<close> with the name \<^verbatim>\<open>"a"\<close> after \<^verbatim>\<open>set<0>(5)\<close>, and two functions of
  one parameter that return their argument: \<^verbatim>\<open>[](int&& x) { return x; }\<close> and
  \<^verbatim>\<open>[](int x) { return x; }\<close>.
\<close>

definition int_map :: "(cxx_type, string, cxx_value) ParameterMap" where
  "int_map =
     \<lparr> PARAMETERS = [(by_value, T_int)],
       m_parameter_name_hashes = [''a''],
       m_stored_values = [(T_int, Some (IntV 5))] \<rparr>"

definition rvalue_reference_callee :: "(cxx_value, unit, cxx_value list) callable" where
  "rvalue_reference_callee =
     \<lparr> takes = (\<lambda>i. by_rvalue_reference), body = (\<lambda>args w. (args, w)) \<rparr>"

definition value_callee :: "(cxx_value, unit, cxx_value list) callable" where
  "value_callee = \<lparr> takes = (\<lambda>i. by_value), body = (\<lambda>args w. (args, w)) \<rparr>"

section \<open>The loops\<close>

lemma static_for_ge: "Last \<le> First \<Longrightarrow> static_for First Last f s = (Inr (), s)"
  by (simp add: static_for.simps)

lemma static_for_step:
  "First < Last \<Longrightarrow> static_for First Last f s =
     (case f First s of (Inl e, s') \<Rightarrow> (Inl e, s') | (Inr u, s') \<Rightarrow> static_for (Suc First) Last f s')"
  by (subst static_for.simps) (auto split: prod.splits sum.splits)

lemma static_for_found:
  "static_for k n (matching_step ct rt func) (True, a) = (Inr (), (True, a))"
proof (induction "n - k" arbitrary: k)
  case 0
  then show ?case by (simp add: static_for_ge)
next
  case (Suc d)
  then have "k < n" and "d = n - Suc k" by simp_all
  then show ?case
    using Suc.hyps(1) [of "Suc k"]
    by (simp add: static_for_step matching_step_def)
qed

lemma static_for_skip:
  assumes "k \<le> i" and "i \<le> n"
    and "\<And>j. k \<le> j \<Longrightarrow> j < i \<Longrightarrow> ct j \<Longrightarrow> rt j = Inr False"
  shows "static_for k n (matching_step ct rt func) (False, a) =
         static_for i n (matching_step ct rt func) (False, a)"
  using assms
proof (induction "i - k" arbitrary: k)
  case 0
  then show ?case by simp
next
  case (Suc d)
  then have lt: "k < i" and d: "d = i - Suc k" by simp_all
  have step: "matching_step ct rt func k (False, a) = (Inr (), (False, a))"
    using Suc.prems(3) [of k] lt by (simp add: matching_step_def)
  have "static_for k n (matching_step ct rt func) (False, a) =
        static_for (Suc k) n (matching_step ct rt func) (False, a)"
    using lt Suc.prems(2) by (simp add: static_for_step step)
  also have "\<dots> = static_for i n (matching_step ct rt func) (False, a)"
    using Suc.hyps(1) [of "Suc k"] d lt Suc.prems by simp
  finally show ?case .
qed

lemma pass_first_none:
  assumes "\<And>j. j < n \<Longrightarrow> ct j \<Longrightarrow> rt j = Inr False"
  shows "pass_first_index_matching_predicate_to n ct rt func a = (Inl invalid_argument, a)"
proof -
  have "static_for 0 n (matching_step ct rt func) (False, a) =
        static_for n n (matching_step ct rt func) (False, a)"
    using assms by (intro static_for_skip) simp_all
  then show ?thesis
    by (simp add: pass_first_index_matching_predicate_to_def static_for_ge)
qed

lemma pass_first_at:
  assumes "i < n" and "ct i" and "rt i = Inr True"
    and "\<And>j. j < i \<Longrightarrow> ct j \<Longrightarrow> rt j = Inr False"
  shows "pass_first_index_matching_predicate_to n ct rt func a = func i a"
proof -
  have "static_for 0 n (matching_step ct rt func) (False, a) =
        static_for i n (matching_step ct rt func) (False, a)"
    using assms by (intro static_for_skip) simp_all
  also have "\<dots> = (case func i a of (r, a') \<Rightarrow> (r, (True, a')))"
    using assms(1-3)
    by (auto simp: static_for_step matching_step_def static_for_found split: prod.splits sum.splits)
  finally show ?thesis
    by (auto simp: pass_first_index_matching_predicate_to_def split: prod.splits sum.splits)
qed


section \<open>Resolution of names and indices\<close>

lemma ensure_name_matches_eq:
  "well_formed pm \<Longrightarrow> j < n_parameters pm \<Longrightarrow>
   ensure_name_matches E pm name j = Inr (m_parameter_name_hashes pm ! j = std_hash E name)"
  by (simp add: ensure_name_matches_def well_formed_def)

lemma by_name_none:
  assumes "well_formed pm"
    and "\<And>j. j < n_parameters pm \<Longrightarrow> m_parameter_name_hashes pm ! j = std_hash E name \<Longrightarrow> \<not> ct j"
  shows "pass_first_index_matching_predicate_to (n_parameters pm) ct
           (ensure_name_matches E pm name) func a = (Inl invalid_argument, a)"
  using assms by (intro pass_first_none) (auto simp: ensure_name_matches_eq)

lemma by_name_at:
  assumes "well_formed pm" and "i < n_parameters pm"
    and "m_parameter_name_hashes pm ! i = std_hash E name" and "ct i"
    and "\<And>j. j < i \<Longrightarrow> m_parameter_name_hashes pm ! j = std_hash E name \<Longrightarrow> \<not> ct j"
  shows "pass_first_index_matching_predicate_to (n_parameters pm) ct
           (ensure_name_matches E pm name) func a = func i a"
  using assms by (intro pass_first_at) (auto simp: ensure_name_matches_eq)

lemma by_index_at:
  assumes "index < n" and "ct index"
  shows "pass_first_index_matching_predicate_to n ct (\<lambda>i. Inr (i = index)) func a = func index a"
  using assms by (intro pass_first_at) auto

lemma by_index_none:
  assumes "n \<le> index \<or> \<not> ct index"
  shows "pass_first_index_matching_predicate_to n ct (\<lambda>i. Inr (i = index)) func a =
         (Inl invalid_argument, a)"
  using assms by (intro pass_first_none) auto

text \<open>A by-name operation sees the name through its hash only.\<close>

lemma by_name_only_hash:
  assumes "std_hash E name = std_hash E name'"
  shows "set_by_name E name T v pm = set_by_name E name' T v pm"
    and "get_by_name E T name pm = get_by_name E T name' pm"
    and "is_set_by_name E name pm = is_set_by_name E name' pm"
  using assms
  by (simp_all add: set_by_name_def get_by_name_def is_set_by_name_def ensure_name_matches_def)

subsection \<open>set\<close>

lemma set_ct_ok:
  assumes "i < n_parameters pm" and "is_convertible_v E T (BaseTypeAt pm i)"
  shows "set_ct E i T v pm =
    (Inr (), pm\<lparr> m_stored_values := (m_stored_values pm)
                [i := (BaseTypeAt pm i, Some (convert E T (BaseTypeAt pm i) v))] \<rparr>)"
  using assms by (simp add: set_ct_def)

lemma set_by_index_ok:
  assumes "i < n_parameters pm" and "is_convertible_v E T (BaseTypeAt pm i)"
  shows "set_by_index E i T v pm = set_ct E i T v pm"
  using assms
  by (simp add: set_by_index_def throw_if_index_out_of_range_def by_index_at IsSettableFrom_def)

lemma set_by_name_ok:
  assumes "well_formed pm" and "i < n_parameters pm"
    and "m_parameter_name_hashes pm ! i = std_hash E name"
    and "is_convertible_v E T (BaseTypeAt pm i)"
    and "\<And>j. j < i \<Longrightarrow> m_parameter_name_hashes pm ! j = std_hash E name
           \<Longrightarrow> \<not> is_convertible_v E T (BaseTypeAt pm j)"
  shows "set_by_name E name T v pm = set_ct E i T v pm"
  unfolding set_by_name_def
  using assms by (intro by_name_at) (auto simp: IsSettableFrom_def)

lemma n_parameters_update [simp]:
  "n_parameters (pm\<lparr> m_stored_values := (m_stored_values pm)[i := x] \<rparr>) = n_parameters pm"
  by (simp add: n_parameters_def)

lemma well_formed_update [simp]:
  "well_formed (pm\<lparr> m_stored_values := (m_stored_values pm)[i := x] \<rparr>) = well_formed pm"
  by (simp add: well_formed_def n_parameters_def)

lemma BaseTypeAt_update [simp]:
  "j < n_parameters pm \<Longrightarrow>
   BaseTypeAt (pm\<lparr> m_stored_values := (m_stored_values pm)[i := (BaseTypeAt pm i, x)] \<rparr>) j
     = BaseTypeAt pm j"
  by (cases "i = j") (simp_all add: BaseTypeAt_def n_parameters_def)

subsection \<open>get\<close>

lemma get_ct_eq:
  "i < n_parameters pm \<Longrightarrow>
   get_ct i pm = (case snd (m_stored_values pm ! i) of None \<Rightarrow> Inl runtime_error | Some v \<Rightarrow> Inr v)"
  by (simp add: get_ct_def throw_if_no_value_stored_for_index_def is_set_ct_def deref_value_def
           split: option.splits)

lemma get_func_eq:
  "i < n_parameters pm \<Longrightarrow>
   (case get_func pm i None of (Inl e, ret) \<Rightarrow> Inl e | (Inr u, ret) \<Rightarrow> deref_value ret) = get_ct i pm"
  by (simp add: get_func_def get_ct_def throw_if_no_value_stored_for_index_def is_set_ct_def
           split: option.splits)

lemma get_by_index_ok:
  assumes "i < n_parameters pm" and "T = BaseTypeAt pm i"
  shows "get_by_index T i pm = get_ct i pm"
  using assms
  by (simp add: get_by_index_def throw_if_index_out_of_range_def by_index_at IsGettableAs_def
        get_func_eq)

lemma get_by_name_ok:
  assumes "well_formed pm" and "i < n_parameters pm"
    and "m_parameter_name_hashes pm ! i = std_hash E name"
    and "T = BaseTypeAt pm i"
    and "\<And>j. j < i \<Longrightarrow> m_parameter_name_hashes pm ! j = std_hash E name \<Longrightarrow> T \<noteq> BaseTypeAt pm j"
  shows "get_by_name E T name pm = get_ct i pm"
proof -
  have "pass_first_index_matching_predicate_to (n_parameters pm) (IsGettableAs pm T)
          (ensure_name_matches E pm name) (get_func pm) None = get_func pm i None"
    using assms by (intro by_name_at) (auto simp: IsGettableAs_def)
  then show ?thesis
    using assms(2) by (simp add: get_by_name_def get_func_eq)
qed

subsection \<open>is\_set\<close>

lemma is_set_ct_eq:
  "i < n_parameters pm \<Longrightarrow> is_set_ct i pm = Inr (snd (m_stored_values pm ! i) \<noteq> None)"
  by (simp add: is_set_ct_def)

lemma is_set_func_eq:
  "i < n_parameters pm \<Longrightarrow>
   (case is_set_func pm i r of (Inl e, ret) \<Rightarrow> Inl e | (Inr u, ret) \<Rightarrow> Inr ret) = is_set_ct i pm"
  by (simp add: is_set_func_def is_set_ct_def)

lemma is_set_by_index_ok:
  assumes "i < n_parameters pm"
  shows "is_set_by_index i pm = is_set_ct i pm"
  using assms by (simp add: is_set_by_index_def by_index_at TruePredicate_def is_set_func_eq)

lemma is_set_by_name_ok:
  assumes "well_formed pm" and "i < n_parameters pm"
    and "m_parameter_name_hashes pm ! i = std_hash E name"
    and "\<And>j. j < i \<Longrightarrow> m_parameter_name_hashes pm ! j \<noteq> std_hash E name"
  shows "is_set_by_name E name pm = is_set_ct i pm"
proof -
  have "pass_first_index_matching_predicate_to (n_parameters pm) TruePredicate
          (ensure_name_matches E pm name) (is_set_func pm) False = is_set_func pm i False"
    using assms by (intro by_name_at) (auto simp: TruePredicate_def)
  then show ?thesis
    using assms(2) by (simp add: is_set_by_name_def is_set_func_eq)
qed


section \<open>submit\<close>

lemma submit_check_eq:
  "i < n_parameters pm \<Longrightarrow>
   submit_check i pm =
     (if snd (m_stored_values pm ! i) = None then (Inl runtime_error, pm) else (Inr (), pm))"
  by (simp add: submit_check_def is_set_ct_def)

lemma static_for_submit_check:
  assumes "n \<le> n_parameters pm"
  shows "static_for k n submit_check pm =
     (if \<exists>i. k \<le> i \<and> i < n \<and> snd (m_stored_values pm ! i) = None
      then (Inl runtime_error, pm) else (Inr (), pm))"
  using assms
proof (induction "n - k" arbitrary: k)
  case 0
  then show ?case by (simp add: static_for_ge)
next
  case (Suc d)
  then have lt: "k < n" and d: "d = n - Suc k" by simp_all
  show ?case
  proof (cases "snd (m_stored_values pm ! k) = None")
    case True
    then have "static_for k n submit_check pm = (Inl runtime_error, pm)"
      using lt Suc.prems by (simp add: static_for_step submit_check_eq)
    moreover have "\<exists>i. k \<le> i \<and> i < n \<and> snd (m_stored_values pm ! i) = None"
      using True lt by auto
    ultimately show ?thesis by simp
  next
    case False
    then have "static_for k n submit_check pm = static_for (Suc k) n submit_check pm"
      using lt Suc.prems by (simp add: static_for_step submit_check_eq del: not_None_eq)
    moreover have "(\<exists>i. k \<le> i \<and> i < n \<and> snd (m_stored_values pm ! i) = None) \<longleftrightarrow>
                   (\<exists>i. Suc k \<le> i \<and> i < n \<and> snd (m_stored_values pm ! i) = None)"
      using False by (metis Suc_leD Suc_leI le_neq_implies_less)
    ultimately show ?thesis
      using Suc.hyps(1) [of "Suc k"] d Suc.prems by simp
  qed
qed

lemma submit_eq:
  "submit pm function w =
     (if \<not> is_invocable_v function (PARAMETERS pm) then (Inl ill_formed, pm, w)
      else if \<exists>i < n_parameters pm. snd (m_stored_values pm ! i) = None
      then (Inl runtime_error, pm, w)
      else (case apply_optionals function const_lvalue (m_stored_values pm) w of
              (r, w') \<Rightarrow> (r, pm, w')))"
  by (auto simp: submit_def static_for_submit_check simp del: not_None_eq)

lemma those_map_Some: "those (map Some vs) = Some vs"
  by (induction vs) simp_all

lemma apply_optionals_full:
  "map snd t = map Some vs \<Longrightarrow>
   apply_optionals f c t w =
     (if invocable_with f (map (\<lambda>x. c) t)
      then (case body f vs w of (r, w') \<Rightarrow> (Inr r, w'))
      else (Inl ill_formed, w))"
  by (simp add: apply_optionals_def apply_optionals_impl_def those_map_Some)

lemma full_no_empty:
  assumes "map snd (m_stored_values pm) = map Some vs"
  shows "\<not> (\<exists>i < n_parameters pm. snd (m_stored_values pm ! i) = None)"
proof
  assume "\<exists>i < n_parameters pm. snd (m_stored_values pm ! i) = None"
  then obtain i where i: "i < length (m_stored_values pm)" and e: "snd (m_stored_values pm ! i) = None"
    by (auto simp: n_parameters_def)
  have "map snd (m_stored_values pm) ! i = map Some vs ! i" using assms by simp
  moreover have "i < length vs" using i assms by (metis length_map)
  ultimately show False using i e by simp
qed

text \<open>A function that takes every parameter by const reference can be called with anything.\<close>

lemma invocable_with_const_reference:
  "takes f = (\<lambda>i. by_const_lvalue_reference) \<Longrightarrow> invocable_with f cs"
  by (simp add: invocable_with_def list_all_iff)

lemma invocable_counting [simp]:
  "invocable_with (counting g) cs" "is_invocable_v (counting g) pack"
  by (simp_all add: is_invocable_v_def invocable_with_const_reference counting_def)

lemma invocable_pure [simp]:
  "invocable_with (pure g) cs" "is_invocable_v (pure g) pack"
  by (simp_all add: is_invocable_v_def invocable_with_const_reference pure_def)

text \<open>
  What \<open>submit\<close> does on a fully populated container when the \<^verbatim>\<open>requires\<close> clause holds
  and the function can take const lvalues: one application of the function to the
  stored values, in slot order.
\<close>

lemma submit_applies_function:
  assumes "map snd (m_stored_values pm) = map Some vs"
    and "is_invocable_v function (PARAMETERS pm)"
    and "invocable_with function (map (\<lambda>x. const_lvalue) (m_stored_values pm))"
  shows "submit pm function w = (case body function vs w of (r, w') \<Rightarrow> (Inr r, pm, w'))"
  using full_no_empty [OF assms(1)] assms(2,3)
  by (simp add: submit_eq apply_optionals_full [OF assms(1)] split: prod.splits)

text \<open>
  On such a container a function that meets the \<^verbatim>\<open>requires\<close> clause but has a parameter
  that cannot take a const lvalue (an rvalue reference, a non-const lvalue reference)
  is not applied.
\<close>

lemma submit_refuses_function:
  assumes "map snd (m_stored_values pm) = map Some vs"
    and "is_invocable_v function (PARAMETERS pm)"
    and "k < n_parameters pm" and "\<not> binds (takes function k) const_lvalue"
  shows "submit pm function w = (Inl ill_formed, pm, w)"
proof -
  have "\<not> invocable_with function (map (\<lambda>x. const_lvalue) (m_stored_values pm))"
    using assms(3,4) by (auto simp: invocable_with_def list_all_iff n_parameters_def)
  then show ?thesis
    using full_no_empty [OF assms(1)] assms(2)
    by (simp add: submit_eq apply_optionals_full [OF assms(1)])
qed

lemma submit_counting:
  assumes "map snd (m_stored_values pm) = map Some vs"
  shows "submit pm (counting g) calls = (Inr (g vs), pm, calls + 1)"
proof -
  have "submit pm (counting g) calls =
        (case body (counting g) vs calls of (r, w') \<Rightarrow> (Inr r, pm, w'))"
    by (rule submit_applies_function [OF assms]) simp_all
  then show ?thesis by (simp add: counting_def)
qed

text \<open>
  C1. On a container whose slots all hold a value, \<open>submit\<close> is to call every function
  that is invocable with the declared parameter types, once, with the stored values.
  The header's own documentation counts functions with rvalue-reference parameters
  (\<^verbatim>\<open>int&&\<close>) among them: a copy of the stored value is to be passed. The code passes
  the stored values as const lvalues. On \<^verbatim>\<open>ParameterMap<int>\<close> holding 5, the function
  \<^verbatim>\<open>[](int&& x) { return x; }\<close> meets the \<^verbatim>\<open>requires\<close> clause, yet the call in
  \<^verbatim>\<open>apply_optionals_impl\<close> is ill-formed and the function is not called; the same
  function taking \<^verbatim>\<open>int\<close> by value is called and returns 5.
\<close>

theorem submit_rvalue_reference_callee:
  "map snd (m_stored_values int_map) = map Some [IntV 5]
   \<and> is_invocable_v rvalue_reference_callee (PARAMETERS int_map)
   \<and> submit int_map rvalue_reference_callee () = (Inl ill_formed, int_map, ())
   \<and> is_invocable_v value_callee (PARAMETERS int_map)
   \<and> submit int_map value_callee () = (Inr [IntV 5], int_map, ())"
  by code_simp







text \<open>
  C10. A container with no parameters, as the constructor builds it from no names:
  \<open>submit\<close> never throws, it applies the function to no arguments and returns its
  result.
\<close>

theorem submit_without_parameters:
  "ParameterMap_ctor E [] [] =
     Inr \<lparr> PARAMETERS = [], m_parameter_name_hashes = [], m_stored_values = [] \<rparr>
   \<and> submit \<lparr> PARAMETERS = [], m_parameter_name_hashes = [], m_stored_values = [] \<rparr> function w =
       (case body function [] w of
          (r, w') \<Rightarrow>
            (Inr r, \<lparr> PARAMETERS = [], m_parameter_name_hashes = [], m_stored_values = [] \<rparr>, w'))"
  by (simp add: ParameterMap_ctor_def submit_eq n_parameters_def apply_optionals_def
        apply_optionals_impl_def is_invocable_v_def invocable_with_def split: prod.splits)

section \<open>clear\<close>

lemma reset_at_eq:
  "i < n_parameters pm \<Longrightarrow>
   reset_at i pm =
     (Inr (), pm\<lparr> m_stored_values := (m_stored_values pm)[i := (fst (m_stored_values pm ! i), None)] \<rparr>)"
  by (simp add: reset_at_def BaseTypeAt_def)

lemma static_for_reset_at:
  assumes "k \<le> n_parameters pm"
  shows "static_for k (n_parameters pm) reset_at pm =
     (Inr (), pm\<lparr> m_stored_values :=
        take k (m_stored_values pm) @ map (\<lambda>x. (fst x, None)) (drop k (m_stored_values pm)) \<rparr>)"
  using assms
proof (induction "n_parameters pm - k" arbitrary: k pm)
  case 0
  then show ?case by (simp add: static_for_ge n_parameters_def)
next
  case (Suc d)
  let ?xs = "m_stored_values pm"
  let ?pm1 = "pm\<lparr> m_stored_values := ?xs[k := (fst (?xs ! k), None)] \<rparr>"
  from Suc have lt: "k < n_parameters pm" by simp
  then have len: "k < length ?xs" by (simp add: n_parameters_def)
  have n1: "n_parameters ?pm1 = n_parameters pm" by simp
  have "static_for k (n_parameters pm) reset_at pm = static_for (Suc k) (n_parameters ?pm1) reset_at ?pm1"
    using lt by (simp add: static_for_step reset_at_eq)
  also have "\<dots> = (Inr (), ?pm1\<lparr> m_stored_values :=
        take (Suc k) (m_stored_values ?pm1) @ map (\<lambda>x. (fst x, None)) (drop (Suc k) (m_stored_values ?pm1)) \<rparr>)"
    using Suc.hyps(2) lt n1 by (intro Suc.hyps(1)) simp_all
  also have "take (Suc k) (m_stored_values ?pm1) @ map (\<lambda>x. (fst x, None)) (drop (Suc k) (m_stored_values ?pm1))
      = take k ?xs @ map (\<lambda>x. (fst x, None)) (drop k ?xs)"
    using len by (simp add: take_Suc_conv_app_nth Cons_nth_drop_Suc [symmetric])
  finally show ?case by simp
qed

lemma clear_eq:
  "clear pm = (Inr (), pm\<lparr> m_stored_values := map (\<lambda>x. (fst x, None)) (m_stored_values pm) \<rparr>)"
  by (simp add: clear_def static_for_reset_at)

lemma clear_twice: "clear (snd (clear pm)) = clear pm"
  by (simp add: clear_eq comp_def)

lemma n_parameters_clear: "n_parameters (snd (clear pm)) = n_parameters pm"
  by (simp add: clear_eq n_parameters_def)

lemma well_formed_clear: "well_formed (snd (clear pm)) = well_formed pm"
  by (simp add: clear_eq well_formed_def n_parameters_def)

lemma hashes_clear: "m_parameter_name_hashes (snd (clear pm)) = m_parameter_name_hashes pm"
  by (simp add: clear_eq)

lemma slot_clear: "i < n_parameters pm \<Longrightarrow> snd (m_stored_values (snd (clear pm)) ! i) = None"
  by (simp add: clear_eq n_parameters_def)

lemma is_set_ct_clear: "i < n_parameters pm \<Longrightarrow> is_set_ct i (snd (clear pm)) = Inr False"
  by (simp add: is_set_ct_def n_parameters_clear slot_clear)

lemma is_set_by_name_clear:
  assumes "well_formed pm" and "i < n_parameters pm"
    and "std_hash E name = m_parameter_name_hashes pm ! i"
  shows "is_set_by_name E name (snd (clear pm)) = Inr False"
proof -
  define j where "j = (LEAST j. m_parameter_name_hashes pm ! j = std_hash E name)"
  have at: "m_parameter_name_hashes pm ! j = std_hash E name"
    unfolding j_def using assms(3) by (metis (mono_tags, lifting) LeastI)
  have le: "j \<le> i"
    unfolding j_def using assms(3) by (simp add: Least_le)
  have least: "\<And>k. k < j \<Longrightarrow> m_parameter_name_hashes pm ! k \<noteq> std_hash E name"
    unfolding j_def using not_less_Least by blast
  have "is_set_by_name E name (snd (clear pm)) = is_set_ct j (snd (clear pm))"
    using assms(1,2) at le least
    by (intro is_set_by_name_ok) (simp_all add: well_formed_clear n_parameters_clear hashes_clear)
  then show ?thesis
    using le assms(2) by (simp add: is_set_ct_clear)
qed

text \<open>
  C7. \<open>clear\<close> never throws, whatever the state; afterwards every slot is empty and
  \<open>is_set\<close> is false for every slot by compile-time index, by run-time index and by
  the slot's name; a second \<open>clear\<close> right after the first gives the same state.
\<close>

theorem clear_empties_every_slot:
  "clear pm = (Inr (), snd (clear pm))
   \<and> n_parameters (snd (clear pm)) = n_parameters pm
   \<and> (\<forall>i < n_parameters pm.
         snd (m_stored_values (snd (clear pm)) ! i) = None
         \<and> is_set_via E (BY_CT_INDEX i) (snd (clear pm)) = Inr False
         \<and> is_set_via E (BY_RT_INDEX i) (snd (clear pm)) = Inr False
         \<and> (\<forall>name. well_formed pm \<and> std_hash E name = m_parameter_name_hashes pm ! i
               \<longrightarrow> is_set_via E (BY_NAME name) (snd (clear pm)) = Inr False))
   \<and> clear (snd (clear pm)) = clear pm"
proof (intro conjI allI impI)
  show "clear pm = (Inr (), snd (clear pm))" by (simp add: clear_eq)
  show "n_parameters (snd (clear pm)) = n_parameters pm" by (rule n_parameters_clear)
  show "clear (snd (clear pm)) = clear pm" by (rule clear_twice)
next
  fix i assume i: "i < n_parameters pm"
  show "snd (m_stored_values (snd (clear pm)) ! i) = None" using i by (rule slot_clear)
  show "is_set_via E (BY_CT_INDEX i) (snd (clear pm)) = Inr False"
    using i by (simp add: is_set_via_def is_set_ct_clear)
  show "is_set_via E (BY_RT_INDEX i) (snd (clear pm)) = Inr False"
    using i by (simp add: is_set_via_def is_set_by_index_ok n_parameters_clear is_set_ct_clear)
  fix name assume "well_formed pm \<and> std_hash E name = m_parameter_name_hashes pm ! i"
  then show "is_set_via E (BY_NAME name) (snd (clear pm)) = Inr False"
    using i by (simp add: is_set_via_def is_set_by_name_clear)
qed

theorem clear_empties_every_slot_witness:
  "(2::nat) < n_parameters full_map \<and> well_formed full_map
   \<and> std_hash example_env ''name'' = m_parameter_name_hashes full_map ! 2
   \<and> is_set_via example_env (BY_CT_INDEX 2) full_map = Inr True
   \<and> clear full_map = (Inr (), suite_map)
   \<and> is_set_via example_env (BY_CT_INDEX 2) (snd (clear full_map)) = Inr False
   \<and> is_set_via example_env (BY_RT_INDEX 2) (snd (clear full_map)) = Inr False
   \<and> is_set_via example_env (BY_NAME ''name'') (snd (clear full_map)) = Inr False
   \<and> clear (snd (clear full_map)) = (Inr (), suite_map)"
proof -
  have i: "(2::nat) < n_parameters full_map"
    by (simp add: full_map_def n_parameters_def)
  have wf: "well_formed full_map"
    by (simp add: full_map_def well_formed_def n_parameters_def)
  have name: "std_hash example_env ''name'' = m_parameter_name_hashes full_map ! 2"
    by (simp add: full_map_def example_env_def)
  have before: "is_set_via example_env (BY_CT_INDEX 2) full_map = Inr True"
    by (simp add: is_set_via_def is_set_ct_def full_map_def n_parameters_def)
  have after: "snd (clear full_map) = suite_map"
    by (simp add: clear_eq full_map_def suite_map_def)
  note t = clear_empties_every_slot [of full_map example_env]
  from t have c1: "clear full_map = (Inr (), snd (clear full_map))" by blast
  from t i have c2: "is_set_via example_env (BY_CT_INDEX 2) (snd (clear full_map)) = Inr False"
    by blast
  from t i have c3: "is_set_via example_env (BY_RT_INDEX 2) (snd (clear full_map)) = Inr False"
    by blast
  from t i wf name have c4: "is_set_via example_env (BY_NAME ''name'') (snd (clear full_map)) = Inr False"
    by blast
  from t have c5: "clear (snd (clear full_map)) = clear full_map" by blast
  show ?thesis
    using i wf name before c1 c2 c3 c4 c5 after by simp
qed


section \<open>What the constructor and set keep\<close>

lemma ctor_well_formed:
  assumes "ParameterMap_ctor E pack names = Inr pm"
  shows "well_formed pm" and "n_parameters pm = length pack"
    and "m_parameter_name_hashes pm = map (std_hash E) names"
    and "m_stored_values pm = map (\<lambda>p. (snd p, None)) pack"
    and "PARAMETERS pm = pack"
  using assms
  by (auto simp: ParameterMap_ctor_def well_formed_def n_parameters_def split: if_splits)

lemma set_ct_frame:
  "well_formed (snd (set_ct E i T v pm)) = well_formed pm"
  "n_parameters (snd (set_ct E i T v pm)) = n_parameters pm"
  "m_parameter_name_hashes (snd (set_ct E i T v pm)) = m_parameter_name_hashes pm"
  "PARAMETERS (snd (set_ct E i T v pm)) = PARAMETERS pm"
  by (simp_all add: set_ct_def n_parameters_def well_formed_def)

lemma set_ct_types:
  "map fst (m_stored_values (snd (set_ct E i T v pm))) = map fst (m_stored_values pm)"
proof (cases "i < n_parameters pm \<and> is_convertible_v E T (BaseTypeAt pm i)")
  case True
  then have "(map fst (m_stored_values pm))[i := fst (m_stored_values pm ! i)]
             = map fst (m_stored_values pm)"
    by (metis list_update_id n_parameters_def nth_map)
  with True show ?thesis
    by (simp add: set_ct_def BaseTypeAt_def map_update)
next
  case False
  then show ?thesis by (auto simp: set_ct_def)
qed

section \<open>The instance\<close>

text \<open>The three containers of the instance are states the code reaches.\<close>

lemma suite_map_constructed:
  "ParameterMap_ctor example_env
     [(by_value, T_int), (by_value, T_bool), (by_const_lvalue_reference, T_string)]
     [''myInt'', ''enabled'', ''name'']
     = Inr suite_map"
  by (simp add: ParameterMap_ctor_def example_env_def suite_map_def)

lemma full_map_reached:
  "snd (set_by_name example_env ''name'' T_char_array (StringV ''Homer Simpson'')
     (snd (set_by_name example_env ''enabled'' T_bool (BoolV True)
        (snd (set_by_name example_env ''myInt'' T_int (IntV 6) suite_map))))) = full_map"
  by code_simp

lemma same_name_map_reached:
  "ParameterMap_ctor example_env
     [(by_value, T_string), (by_value, T_int), (by_value, T_int)] [''x'', ''x'', ''x''] = Inr pm
   \<Longrightarrow> snd (set_ct example_env 2 T_int (IntV 7) pm) = same_name_map"
  by (auto simp: ParameterMap_ctor_def example_env_def same_name_map_def set_ct_def
        n_parameters_def BaseTypeAt_def split: if_splits)

lemma int_map_reached:
  "ParameterMap_ctor example_env [(by_value, T_int)] [''a''] = Inr pm
   \<Longrightarrow> snd (set_ct example_env 0 T_int (IntV 5) pm) = int_map"
  by (auto simp: ParameterMap_ctor_def example_env_def int_map_def set_ct_def
        n_parameters_def BaseTypeAt_def split: if_splits)

lemma suite_map_facts:
  "n_parameters suite_map = 3" "well_formed suite_map"
  "m_parameter_name_hashes suite_map = [''myInt'', ''enabled'', ''name'']"
  "BaseTypeAt suite_map 0 = T_int" "BaseTypeAt suite_map 1 = T_bool"
  "BaseTypeAt suite_map (Suc 0) = T_bool" "BaseTypeAt suite_map 2 = T_string"
  by (simp_all add: suite_map_def n_parameters_def well_formed_def BaseTypeAt_def)

lemma less_3_cases: "(j::nat) < 3 \<longleftrightarrow> j = 0 \<or> j = 1 \<or> j = 2"
  by auto

lemma same_name_map_facts:
  "n_parameters same_name_map = 3" "well_formed same_name_map"
  "m_parameter_name_hashes same_name_map = [''x'', ''x'', ''x'']"
  "BaseTypeAt same_name_map 0 = T_string" "BaseTypeAt same_name_map 1 = T_int"
  "BaseTypeAt same_name_map (Suc 0) = T_int" "BaseTypeAt same_name_map 2 = T_int"
  by (simp_all add: same_name_map_def n_parameters_def well_formed_def BaseTypeAt_def)

lemma full_map_facts:
  "n_parameters full_map = 3" "well_formed full_map"
  "m_parameter_name_hashes full_map = [''myInt'', ''enabled'', ''name'']"
  "BaseTypeAt full_map 0 = T_int" "BaseTypeAt full_map 1 = T_bool"
  "BaseTypeAt full_map (Suc 0) = T_bool" "BaseTypeAt full_map 2 = T_string"
  by (simp_all add: full_map_def n_parameters_def well_formed_def BaseTypeAt_def)

section \<open>Run-time indices past the end\<close>

lemma set_by_index_beyond:
  "n_parameters pm \<le> index \<Longrightarrow> set_by_index E index T v pm = (Inl out_of_range, pm)"
  by (simp add: set_by_index_def throw_if_index_out_of_range_def)

lemma get_by_index_beyond:
  "n_parameters pm \<le> index \<Longrightarrow> get_by_index T index pm = Inl out_of_range"
  by (simp add: get_by_index_def throw_if_index_out_of_range_def)

lemma is_set_by_index_beyond:
  "n_parameters pm \<le> index \<Longrightarrow> is_set_by_index index pm = Inl invalid_argument"
  by (simp add: is_set_by_index_def by_index_none)

text \<open>
  C4. A run-time index at or past N is to make \<open>set\<close>, \<open>get\<close> and \<open>is_set\<close> throw
  \<^verbatim>\<open>std::out_of_range\<close>, before any look at the types or at the slot; the doc comment
  of each of the three overloads says so. On the container of the test suite (N = 3)
  and the index 3, \<open>set\<close> and \<open>get\<close> do, but \<open>is_set\<close> throws
  \<^verbatim>\<open>std::invalid_argument\<close>: its body does not call \<^verbatim>\<open>throw_if_index_out_of_range\<close>,
  so the index matches no slot and the search itself reports the failure.
\<close>

theorem is_set_by_index_past_the_end:
  "n_parameters suite_map = 3
   \<and> set_by_index example_env 3 T_int (IntV 3) suite_map = (Inl out_of_range, suite_map)
   \<and> get_by_index T_int 3 suite_map = Inl out_of_range
   \<and> is_set_by_index 3 suite_map = Inl invalid_argument"
proof -
  have n: "n_parameters suite_map = 3" by (simp add: suite_map_def n_parameters_def)
  then show ?thesis
    by (simp add: set_by_index_beyond get_by_index_beyond is_set_by_index_beyond)
qed

section \<open>Names and types that match no slot\<close>

lemma set_by_name_mismatch:
  assumes "well_formed pm"
    and "\<And>j. j < n_parameters pm \<Longrightarrow> m_parameter_name_hashes pm ! j = std_hash E name
           \<Longrightarrow> \<not> IsSettableFrom E pm T j"
  shows "set_by_name E name T v pm = (Inl invalid_argument, pm)"
  unfolding set_by_name_def using assms by (intro by_name_none) auto

lemma get_by_name_mismatch:
  assumes "well_formed pm"
    and "\<And>j. j < n_parameters pm \<Longrightarrow> m_parameter_name_hashes pm ! j = std_hash E name
           \<Longrightarrow> \<not> IsGettableAs pm T j"
  shows "get_by_name E T name pm = Inl invalid_argument"
proof -
  have "pass_first_index_matching_predicate_to (n_parameters pm) (IsGettableAs pm T)
          (ensure_name_matches E pm name) (get_func pm) None = (Inl invalid_argument, None)"
    using assms by (intro by_name_none) auto
  then show ?thesis by (simp add: get_by_name_def)
qed

lemma set_by_index_mismatch:
  assumes "index < n_parameters pm" and "\<not> IsSettableFrom E pm T index"
  shows "set_by_index E index T v pm = (Inl invalid_argument, pm)"
  using assms by (simp add: set_by_index_def throw_if_index_out_of_range_def by_index_none)

lemma get_by_index_mismatch:
  assumes "index < n_parameters pm" and "\<not> IsGettableAs pm T index"
  shows "get_by_index T index pm = Inl invalid_argument"
  using assms by (simp add: get_by_index_def throw_if_index_out_of_range_def by_index_none)

text \<open>
  C5. \<open>set\<close> and \<open>get\<close> throw \<^verbatim>\<open>std::invalid_argument\<close> when the name matches no
  slot, when every slot the name matches has a type the operation does not accept
  (\<open>IsSettableFrom\<close>: convertibility, for \<open>set\<close>; \<open>IsGettableAs\<close>: the same base type,
  for \<open>get\<close>), and when the slot of a valid run-time index has such a type. A name
  matches a slot when \<^verbatim>\<open>ensure_name_matches\<close> says so: the hash of the name is the hash
  stored for the slot.
\<close>

theorem argument_mismatch:
  assumes "well_formed pm"
  shows "((\<forall>j < n_parameters pm. m_parameter_name_hashes pm ! j \<noteq> std_hash E name)
          \<longrightarrow> set_via E (BY_NAME name) T v pm = (Inl invalid_argument, pm)
            \<and> get_via E (BY_NAME name) T pm = Inl invalid_argument)
       \<and> ((\<forall>j < n_parameters pm. m_parameter_name_hashes pm ! j = std_hash E name
                \<longrightarrow> \<not> IsSettableFrom E pm T j)
          \<longrightarrow> set_via E (BY_NAME name) T v pm = (Inl invalid_argument, pm))
       \<and> ((\<forall>j < n_parameters pm. m_parameter_name_hashes pm ! j = std_hash E name
                \<longrightarrow> \<not> IsGettableAs pm T j)
          \<longrightarrow> get_via E (BY_NAME name) T pm = Inl invalid_argument)
       \<and> (index < n_parameters pm \<and> \<not> IsSettableFrom E pm T index
          \<longrightarrow> set_via E (BY_RT_INDEX index) T v pm = (Inl invalid_argument, pm))
       \<and> (index < n_parameters pm \<and> \<not> IsGettableAs pm T index
          \<longrightarrow> get_via E (BY_RT_INDEX index) T pm = Inl invalid_argument)"
proof (intro conjI impI)
  assume none: "\<forall>j < n_parameters pm. m_parameter_name_hashes pm ! j \<noteq> std_hash E name"
  show "set_via E (BY_NAME name) T v pm = (Inl invalid_argument, pm)"
    unfolding set_via_def addressing.case using assms none by (intro set_by_name_mismatch) auto
  show "get_via E (BY_NAME name) T pm = Inl invalid_argument"
    unfolding get_via_def addressing.case using assms none by (intro get_by_name_mismatch) auto
next
  assume "\<forall>j < n_parameters pm. m_parameter_name_hashes pm ! j = std_hash E name
                \<longrightarrow> \<not> IsSettableFrom E pm T j"
  then show "set_via E (BY_NAME name) T v pm = (Inl invalid_argument, pm)"
    unfolding set_via_def addressing.case using assms by (intro set_by_name_mismatch) auto
next
  assume "\<forall>j < n_parameters pm. m_parameter_name_hashes pm ! j = std_hash E name
                \<longrightarrow> \<not> IsGettableAs pm T j"
  then show "get_via E (BY_NAME name) T pm = Inl invalid_argument"
    unfolding get_via_def addressing.case using assms by (intro get_by_name_mismatch) auto
next
  assume "index < n_parameters pm \<and> \<not> IsSettableFrom E pm T index"
  then show "set_via E (BY_RT_INDEX index) T v pm = (Inl invalid_argument, pm)"
    by (simp add: set_via_def set_by_index_mismatch)
next
  assume "index < n_parameters pm \<and> \<not> IsGettableAs pm T index"
  then show "get_via E (BY_RT_INDEX index) T pm = Inl invalid_argument"
    by (simp add: get_via_def get_by_index_mismatch)
qed

theorem argument_mismatch_witness:
  "well_formed suite_map
   \<and> n_parameters suite_map = 3
   \<and> m_parameter_name_hashes suite_map ! 0 \<noteq> std_hash example_env ''not_myInt''
   \<and> m_parameter_name_hashes suite_map ! 1 \<noteq> std_hash example_env ''not_myInt''
   \<and> m_parameter_name_hashes suite_map ! 2 \<noteq> std_hash example_env ''not_myInt''
   \<and> m_parameter_name_hashes suite_map ! 0 \<noteq> std_hash example_env ''name''
   \<and> m_parameter_name_hashes suite_map ! 1 \<noteq> std_hash example_env ''name''
   \<and> set_via example_env (BY_NAME ''not_myInt'') T_int (IntV 3) suite_map
       = (Inl invalid_argument, suite_map)
   \<and> get_via example_env (BY_NAME ''not_myInt'') T_int suite_map = Inl invalid_argument
   \<and> m_parameter_name_hashes suite_map ! 2 = std_hash example_env ''name''
   \<and> (2::nat) < n_parameters suite_map
   \<and> \<not> IsSettableFrom example_env suite_map T_int 2
   \<and> \<not> IsGettableAs suite_map T_int 2
   \<and> set_via example_env (BY_NAME ''name'') T_int (IntV 3) suite_map
       = (Inl invalid_argument, suite_map)
   \<and> get_via example_env (BY_NAME ''name'') T_int suite_map = Inl invalid_argument
   \<and> set_via example_env (BY_RT_INDEX 2) T_int (IntV 3) suite_map
       = (Inl invalid_argument, suite_map)
   \<and> get_via example_env (BY_RT_INDEX 2) T_int suite_map = Inl invalid_argument"
proof -
  have wf: "well_formed suite_map" by (rule suite_map_facts)
  have none: "\<forall>j < n_parameters suite_map.
         m_parameter_name_hashes suite_map ! j \<noteq> std_hash example_env ''not_myInt''"
    by (auto simp: suite_map_facts less_3_cases example_env_def)
  have at: "m_parameter_name_hashes suite_map ! 2 = std_hash example_env ''name''"
    by (simp add: suite_map_facts example_env_def)
  have lt: "(2::nat) < n_parameters suite_map" by (simp add: suite_map_facts)
  have ns: "\<not> IsSettableFrom example_env suite_map T_int 2"
    by (simp add: IsSettableFrom_def suite_map_facts example_env_def)
  have ng: "\<not> IsGettableAs suite_map T_int 2"
    by (simp add: IsGettableAs_def suite_map_facts)
  have ns': "\<forall>j < n_parameters suite_map.
       m_parameter_name_hashes suite_map ! j = std_hash example_env ''name''
         \<longrightarrow> \<not> IsSettableFrom example_env suite_map T_int j"
    using ns by (auto simp: suite_map_facts less_3_cases example_env_def)
  have ng': "\<forall>j < n_parameters suite_map.
       m_parameter_name_hashes suite_map ! j = std_hash example_env ''name''
         \<longrightarrow> \<not> IsGettableAs suite_map T_int j"
    using ng by (auto simp: suite_map_facts less_3_cases example_env_def)
  note a = argument_mismatch [OF wf, of example_env "''not_myInt''" T_int "IntV 3" 2]
  note b = argument_mismatch [OF wf, of example_env "''name''" T_int "IntV 3" 2]
  from a none have 1: "set_via example_env (BY_NAME ''not_myInt'') T_int (IntV 3) suite_map
       = (Inl invalid_argument, suite_map)"
    and 2: "get_via example_env (BY_NAME ''not_myInt'') T_int suite_map = Inl invalid_argument"
    by blast+
  from b ns' have 3: "set_via example_env (BY_NAME ''name'') T_int (IntV 3) suite_map
       = (Inl invalid_argument, suite_map)" by blast
  from b ng' have 4: "get_via example_env (BY_NAME ''name'') T_int suite_map = Inl invalid_argument"
    by blast
  from b lt ns have 5: "set_via example_env (BY_RT_INDEX 2) T_int (IntV 3) suite_map
       = (Inl invalid_argument, suite_map)" by blast
  from b lt ng have 6: "get_via example_env (BY_RT_INDEX 2) T_int suite_map = Inl invalid_argument"
    by blast
  have n: "n_parameters suite_map = 3" by (rule suite_map_facts)
  have others: "m_parameter_name_hashes suite_map ! 0 \<noteq> std_hash example_env ''not_myInt''"
    "m_parameter_name_hashes suite_map ! 1 \<noteq> std_hash example_env ''not_myInt''"
    "m_parameter_name_hashes suite_map ! 2 \<noteq> std_hash example_env ''not_myInt''"
    "m_parameter_name_hashes suite_map ! 0 \<noteq> std_hash example_env ''name''"
    "m_parameter_name_hashes suite_map ! 1 \<noteq> std_hash example_env ''name''"
    by (simp_all add: suite_map_facts example_env_def)
  show ?thesis
    using wf n others at lt ns ng 1 2 3 4 5 6 by blast
qed

section \<open>Slots that share a name\<close>

text \<open>
  C6. Among the slots whose stored hash is the hash of the given name, every by-name
  operation takes the one of lowest index that passes the operation's type test
  (\<open>IsSettableFrom\<close> for \<open>set\<close>, \<open>IsGettableAs\<close> for \<open>get\<close>, \<open>TruePredicate\<close> for
  \<open>is_set\<close>), and acts on that slot: \<open>set\<close> succeeds and leaves the container with the
  converted value in that slot and every other slot as it was, \<open>get\<close> returns that
  slot's value or throws \<^verbatim>\<open>std::runtime_error\<close> when it is empty, \<open>is_set\<close> reports
  whether that slot holds a value. Each is what the compile-time-index overload does
  for that index.
\<close>

theorem by_name_acts_on_lowest_index:
  assumes "well_formed pm" and "i < n_parameters pm"
    and "m_parameter_name_hashes pm ! i = std_hash E name"
  shows "(IsSettableFrom E pm T i
            \<and> (\<forall>j < i. m_parameter_name_hashes pm ! j = std_hash E name
                  \<longrightarrow> \<not> IsSettableFrom E pm T j)
          \<longrightarrow> set_via E (BY_NAME name) T v pm
                = (Inr (),
                   pm\<lparr> m_stored_values :=
                         (m_stored_values pm)
                           [i := (BaseTypeAt pm i, Some (convert E T (BaseTypeAt pm i) v))] \<rparr>)
              \<and> snd (m_stored_values (snd (set_via E (BY_NAME name) T v pm)) ! i)
                  = Some (convert E T (BaseTypeAt pm i) v)
              \<and> (\<forall>k < n_parameters pm. k \<noteq> i \<longrightarrow>
                    m_stored_values (snd (set_via E (BY_NAME name) T v pm)) ! k
                      = m_stored_values pm ! k)
              \<and> set_via E (BY_NAME name) T v pm = set_via E (BY_CT_INDEX i) T v pm)
       \<and> (IsGettableAs pm T i
            \<and> (\<forall>j < i. m_parameter_name_hashes pm ! j = std_hash E name
                  \<longrightarrow> \<not> IsGettableAs pm T j)
          \<longrightarrow> get_via E (BY_NAME name) T pm
                = (case snd (m_stored_values pm ! i) of
                     None \<Rightarrow> Inl runtime_error
                   | Some x \<Rightarrow> Inr x)
              \<and> get_via E (BY_NAME name) T pm = get_via E (BY_CT_INDEX i) T pm)
       \<and> ((\<forall>j < i. m_parameter_name_hashes pm ! j = std_hash E name \<longrightarrow> \<not> TruePredicate j)
          \<longrightarrow> is_set_via E (BY_NAME name) pm = Inr (snd (m_stored_values pm ! i) \<noteq> None)
              \<and> is_set_via E (BY_NAME name) pm = is_set_via E (BY_CT_INDEX i) pm)"
proof (intro conjI impI)
  assume s: "IsSettableFrom E pm T i
            \<and> (\<forall>j < i. m_parameter_name_hashes pm ! j = std_hash E name
                  \<longrightarrow> \<not> IsSettableFrom E pm T j)"
  let ?pm' = "pm\<lparr> m_stored_values :=
                         (m_stored_values pm)
                           [i := (BaseTypeAt pm i, Some (convert E T (BaseTypeAt pm i) v))] \<rparr>"
  have conv: "is_convertible_v E T (BaseTypeAt pm i)"
    using s by (simp add: IsSettableFrom_def)
  have by_name: "set_by_name E name T v pm = set_ct E i T v pm"
    using assms s conv by (intro set_by_name_ok) (auto simp: IsSettableFrom_def)
  then show same: "set_via E (BY_NAME name) T v pm = set_via E (BY_CT_INDEX i) T v pm"
    by (simp add: set_via_def)
  show result: "set_via E (BY_NAME name) T v pm = (Inr (), ?pm')"
    using by_name set_ct_ok [OF assms(2) conv] by (simp add: set_via_def)
  show "snd (m_stored_values (snd (set_via E (BY_NAME name) T v pm)) ! i)
          = Some (convert E T (BaseTypeAt pm i) v)"
    using assms(2) by (simp add: result n_parameters_def)
  show "\<forall>k < n_parameters pm. k \<noteq> i \<longrightarrow>
          m_stored_values (snd (set_via E (BY_NAME name) T v pm)) ! k = m_stored_values pm ! k"
    by (simp add: result)
next
  assume g: "IsGettableAs pm T i
            \<and> (\<forall>j < i. m_parameter_name_hashes pm ! j = std_hash E name
                  \<longrightarrow> \<not> IsGettableAs pm T j)"
  have by_name: "get_by_name E T name pm = get_ct i pm"
    using assms g by (intro get_by_name_ok) (auto simp: IsGettableAs_def)
  then show "get_via E (BY_NAME name) T pm = get_via E (BY_CT_INDEX i) T pm"
    by (simp add: get_via_def)
  show "get_via E (BY_NAME name) T pm
          = (case snd (m_stored_values pm ! i) of None \<Rightarrow> Inl runtime_error | Some x \<Rightarrow> Inr x)"
    using by_name get_ct_eq [OF assms(2)] by (simp add: get_via_def)
next
  assume t: "\<forall>j < i. m_parameter_name_hashes pm ! j = std_hash E name \<longrightarrow> \<not> TruePredicate j"
  have by_name: "is_set_by_name E name pm = is_set_ct i pm"
    using assms t by (intro is_set_by_name_ok) (auto simp: TruePredicate_def)
  then show "is_set_via E (BY_NAME name) pm = is_set_via E (BY_CT_INDEX i) pm"
    by (simp add: is_set_via_def)
  show "is_set_via E (BY_NAME name) pm = Inr (snd (m_stored_values pm ! i) \<noteq> None)"
    using by_name is_set_ct_eq [OF assms(2)] by (simp add: is_set_via_def del: not_None_eq)
qed

theorem by_name_acts_on_lowest_index_witness:
  "well_formed same_name_map
   \<and> m_parameter_name_hashes same_name_map ! 0 = std_hash example_env ''x''
   \<and> m_parameter_name_hashes same_name_map ! 1 = std_hash example_env ''x''
   \<and> m_parameter_name_hashes same_name_map ! 2 = std_hash example_env ''x''
   \<and> \<not> IsSettableFrom example_env same_name_map T_int 0
   \<and> IsSettableFrom example_env same_name_map T_int 1
   \<and> \<not> IsGettableAs same_name_map T_int 0
   \<and> IsGettableAs same_name_map T_int 1
   \<and> m_stored_values same_name_map = [(T_string, None), (T_int, None), (T_int, Some (IntV 7))]
   \<and> set_via example_env (BY_NAME ''x'') T_int (IntV 4) same_name_map
       = (Inr (),
          same_name_map\<lparr> m_stored_values :=
            [(T_string, None), (T_int, Some (IntV 4)), (T_int, Some (IntV 7))] \<rparr>)
   \<and> get_via example_env (BY_NAME ''x'') T_int
        (snd (set_via example_env (BY_NAME ''x'') T_int (IntV 4) same_name_map)) = Inr (IntV 4)
   \<and> get_via example_env (BY_NAME ''x'') T_int same_name_map = Inl runtime_error
   \<and> get_via example_env (BY_CT_INDEX 2) T_int same_name_map = Inr (IntV 7)
   \<and> is_set_via example_env (BY_NAME ''x'') same_name_map = Inr False
   \<and> is_set_via example_env (BY_CT_INDEX 2) same_name_map = Inr True"
proof -
  have wf: "well_formed same_name_map" by (rule same_name_map_facts)
  have h: "m_parameter_name_hashes same_name_map ! 0 = std_hash example_env ''x''"
    "m_parameter_name_hashes same_name_map ! 1 = std_hash example_env ''x''"
    "m_parameter_name_hashes same_name_map ! 2 = std_hash example_env ''x''"
    by (simp_all add: same_name_map_facts example_env_def)
  have t: "\<not> IsSettableFrom example_env same_name_map T_int 0"
    "IsSettableFrom example_env same_name_map T_int 1"
    "\<not> IsGettableAs same_name_map T_int 0"
    "IsGettableAs same_name_map T_int 1"
    by (simp_all add: IsSettableFrom_def IsGettableAs_def same_name_map_facts example_env_def)
  have lt: "(0::nat) < n_parameters same_name_map" "(1::nat) < n_parameters same_name_map"
    by (simp_all add: same_name_map_facts)
  have stored: "m_stored_values same_name_map
                  = [(T_string, None), (T_int, None), (T_int, Some (IntV 7))]"
    by (simp add: same_name_map_def)
  have others: "get_via example_env (BY_CT_INDEX 2) T_int same_name_map = Inr (IntV 7)"
    "is_set_via example_env (BY_CT_INDEX 2) same_name_map = Inr True"
    by (simp_all add: get_via_def is_set_via_def get_ct_eq is_set_ct_eq same_name_map_facts stored)
  note one = by_name_acts_on_lowest_index [OF wf lt(2) h(2), of T_int "IntV 4"]
  note zero = by_name_acts_on_lowest_index [OF wf lt(1) h(1), of T_int "IntV 4"]
  have lower: "\<forall>j < 1. m_parameter_name_hashes same_name_map ! j = std_hash example_env ''x''
                  \<longrightarrow> \<not> IsSettableFrom example_env same_name_map T_int j"
    "\<forall>j < 1. m_parameter_name_hashes same_name_map ! j = std_hash example_env ''x''
                  \<longrightarrow> \<not> IsGettableAs same_name_map T_int j"
    using t by simp_all
  have "set_via example_env (BY_NAME ''x'') T_int (IntV 4) same_name_map
                = (Inr (),
                   same_name_map\<lparr> m_stored_values :=
                         (m_stored_values same_name_map)
                           [1 := (BaseTypeAt same_name_map 1,
                                  Some (convert example_env T_int (BaseTypeAt same_name_map 1) (IntV 4)))] \<rparr>)"
    using one t(2) lower(1) by blast
  then have s: "set_via example_env (BY_NAME ''x'') T_int (IntV 4) same_name_map
       = (Inr (),
          same_name_map\<lparr> m_stored_values :=
            [(T_string, None), (T_int, Some (IntV 4)), (T_int, Some (IntV 7))] \<rparr>)"
    by (simp add: stored same_name_map_facts example_env_def)
  have "get_via example_env (BY_NAME ''x'') T_int same_name_map
                = (case snd (m_stored_values same_name_map ! 1) of
                     None \<Rightarrow> Inl runtime_error
                   | Some x \<Rightarrow> Inr x)"
    using one t(4) lower(2) by blast
  then have g: "get_via example_env (BY_NAME ''x'') T_int same_name_map = Inl runtime_error"
    by (simp add: stored)
  have "is_set_via example_env (BY_NAME ''x'') same_name_map
          = Inr (snd (m_stored_values same_name_map ! 0) \<noteq> None)"
    using zero by simp
  then have i: "is_set_via example_env (BY_NAME ''x'') same_name_map = Inr False"
    by (simp add: stored)
  have after_set: "get_via example_env (BY_NAME ''x'') T_int
        (snd (set_via example_env (BY_NAME ''x'') T_int (IntV 4) same_name_map)) = Inr (IntV 4)"
    by code_simp
  show ?thesis using wf h t stored s after_set g others i by blast
qed


section \<open>set, then is\_set and get\<close>

lemma hashes_update [simp]:
  "m_parameter_name_hashes (pm\<lparr> m_stored_values := xs \<rparr>) = m_parameter_name_hashes pm"
  by simp

lemma slot_after_store:
  "i < n_parameters pm \<Longrightarrow>
   snd (m_stored_values (pm\<lparr> m_stored_values := (m_stored_values pm)[i := (t, x)] \<rparr>) ! i) = x"
  by (simp add: n_parameters_def)

text \<open>
  C3, as the code has it. Let slot \<open>i\<close> have a distinct name (names are kept and
  compared as hashes: no other slot has the hash of its name), and let \<open>v\<close> be a value
  of a type \<open>T\<close> convertible to the base type of the slot. Whichever
  of the three ways \<open>set\<close> is called for slot \<open>i\<close>, it succeeds; afterwards \<open>is_set\<close>
  is true in each of the three ways, and \<open>get\<close> for the slot's base type returns, in
  each of the three ways, the value \<open>v\<close> converted to the slot's base type.
\<close>

theorem set_then_is_set_and_get:
  assumes wf: "well_formed pm" and i: "i < n_parameters pm"
    and name: "std_hash E name = m_parameter_name_hashes pm ! i"
    and distinct: "\<forall>j < n_parameters pm. j \<noteq> i \<longrightarrow>
                     m_parameter_name_hashes pm ! j \<noteq> m_parameter_name_hashes pm ! i"
    and conv: "is_convertible_v E T (BaseTypeAt pm i)"
    and sm: "sm \<in> {BY_NAME name, BY_RT_INDEX i, BY_CT_INDEX i}"
    and im: "im \<in> {BY_NAME name, BY_RT_INDEX i, BY_CT_INDEX i}"
    and gm: "gm \<in> {BY_NAME name, BY_RT_INDEX i, BY_CT_INDEX i}"
  shows "fst (set_via E sm T v pm) = Inr ()
       \<and> is_set_via E im (snd (set_via E sm T v pm)) = Inr True
       \<and> get_via E gm (BaseTypeAt pm i) (snd (set_via E sm T v pm))
           = Inr (convert E T (BaseTypeAt pm i) v)"
proof -
  let ?cv = "convert E T (BaseTypeAt pm i) v"
  let ?pm' = "pm\<lparr> m_stored_values := (m_stored_values pm)[i := (BaseTypeAt pm i, Some ?cv)] \<rparr>"
  have below: "\<And>j. j < i \<Longrightarrow> m_parameter_name_hashes pm ! j \<noteq> std_hash E name"
    using distinct i name by auto
  have ct: "set_ct E i T v pm = (Inr (), ?pm')"
    using i conv by (rule set_ct_ok)
  have "set_by_name E name T v pm = set_ct E i T v pm"
    using wf i name conv below by (intro set_by_name_ok) auto
  moreover have "set_by_index E i T v pm = set_ct E i T v pm"
    using i conv by (rule set_by_index_ok)
  ultimately have set: "set_via E sm T v pm = (Inr (), ?pm')"
    using sm ct by (auto simp: set_via_def)
  have n': "n_parameters ?pm' = n_parameters pm" by simp
  have wf': "well_formed ?pm'" using wf by simp
  have i': "i < n_parameters ?pm'" using i by simp
  have h': "m_parameter_name_hashes ?pm' = m_parameter_name_hashes pm" by simp
  have ty': "BaseTypeAt ?pm' i = BaseTypeAt pm i" using i by simp
  have slot: "snd (m_stored_values ?pm' ! i) = Some ?cv"
    using i by (rule slot_after_store)
  have is_ct: "is_set_ct i ?pm' = Inr True"
    using i' slot by (simp add: is_set_ct_def del: n_parameters_update)
  have "is_set_by_name E name ?pm' = is_set_ct i ?pm'"
    using wf' i' name below by (intro is_set_by_name_ok) (auto simp: h')
  moreover have "is_set_by_index i ?pm' = is_set_ct i ?pm'"
    using i' by (rule is_set_by_index_ok)
  ultimately have is_set: "is_set_via E im ?pm' = Inr True"
    using im is_ct by (auto simp: is_set_via_def)
  have get_ct': "get_ct i ?pm' = Inr ?cv"
    using i' slot by (simp add: get_ct_eq del: n_parameters_update)
  have "get_by_name E (BaseTypeAt pm i) name ?pm' = get_ct i ?pm'"
    using wf' i' name below ty' by (intro get_by_name_ok) (auto simp: h')
  moreover have "get_by_index (BaseTypeAt pm i) i ?pm' = get_ct i ?pm'"
    using i' ty' by (intro get_by_index_ok) auto
  ultimately have get: "get_via E gm (BaseTypeAt pm i) ?pm' = Inr ?cv"
    using gm get_ct' by (auto simp: get_via_def)
  show ?thesis
    using set is_set get by simp
qed


theorem set_then_is_set_and_get_witness:
  "well_formed suite_map \<and> (1::nat) < n_parameters suite_map
   \<and> std_hash example_env ''enabled'' = m_parameter_name_hashes suite_map ! 1
   \<and> n_parameters suite_map = 3
   \<and> m_parameter_name_hashes suite_map ! 0 \<noteq> m_parameter_name_hashes suite_map ! 1
   \<and> m_parameter_name_hashes suite_map ! 2 \<noteq> m_parameter_name_hashes suite_map ! 1
   \<and> is_convertible_v example_env T_int (BaseTypeAt suite_map 1)
   \<and> fst (set_via example_env (BY_NAME ''enabled'') T_int (IntV 5) suite_map) = Inr ()
   \<and> is_set_via example_env (BY_RT_INDEX 1)
        (snd (set_via example_env (BY_NAME ''enabled'') T_int (IntV 5) suite_map)) = Inr True
   \<and> get_via example_env (BY_CT_INDEX 1) T_bool
        (snd (set_via example_env (BY_NAME ''enabled'') T_int (IntV 5) suite_map))
       = Inr (BoolV True)"
proof -
  have wf: "well_formed suite_map" by (rule suite_map_facts)
  have i: "(1::nat) < n_parameters suite_map" by (simp add: suite_map_facts)
  have name: "std_hash example_env ''enabled'' = m_parameter_name_hashes suite_map ! 1"
    by (simp add: suite_map_facts example_env_def)
  have distinct: "\<forall>j < n_parameters suite_map. j \<noteq> 1 \<longrightarrow>
         m_parameter_name_hashes suite_map ! j \<noteq> m_parameter_name_hashes suite_map ! 1"
    by (auto simp: suite_map_facts less_3_cases)
  have conv: "is_convertible_v example_env T_int (BaseTypeAt suite_map 1)"
    by (simp add: suite_map_facts example_env_def)
  have "fst (set_via example_env (BY_NAME ''enabled'') T_int (IntV 5) suite_map) = Inr ()
       \<and> is_set_via example_env (BY_RT_INDEX 1)
            (snd (set_via example_env (BY_NAME ''enabled'') T_int (IntV 5) suite_map)) = Inr True
       \<and> get_via example_env (BY_CT_INDEX 1) (BaseTypeAt suite_map 1)
            (snd (set_via example_env (BY_NAME ''enabled'') T_int (IntV 5) suite_map))
           = Inr (convert example_env T_int (BaseTypeAt suite_map 1) (IntV 5))"
    by (rule set_then_is_set_and_get [OF wf i name distinct conv]) simp_all
  moreover have "convert example_env T_int (BaseTypeAt suite_map 1) (IntV 5) = BoolV True"
    by (simp add: suite_map_facts example_env_def)
  moreover have "BaseTypeAt suite_map 1 = T_bool" by (rule suite_map_facts)
  moreover have "n_parameters suite_map = 3"
    "m_parameter_name_hashes suite_map ! 0 \<noteq> m_parameter_name_hashes suite_map ! 1"
    "m_parameter_name_hashes suite_map ! 2 \<noteq> m_parameter_name_hashes suite_map ! 1"
    by (simp_all add: suite_map_facts)
  ultimately show ?thesis
    using wf i name conv by simp
qed

text \<open>
  The value read back is not always the value given: on the container of the test
  suite, \<^verbatim>\<open>set("enabled", 5)\<close> is accepted (\<^verbatim>\<open>int\<close> converts to \<^verbatim>\<open>bool\<close>) and
  \<^verbatim>\<open>get<bool>("enabled")\<close> then returns \<^verbatim>\<open>true\<close>, not 5.
\<close>

theorem set_then_get_counterexample:
  "well_formed suite_map \<and> (1::nat) < n_parameters suite_map
   \<and> std_hash example_env ''enabled'' = m_parameter_name_hashes suite_map ! 1
   \<and> m_parameter_name_hashes suite_map ! 0 \<noteq> m_parameter_name_hashes suite_map ! 1
   \<and> m_parameter_name_hashes suite_map ! 2 \<noteq> m_parameter_name_hashes suite_map ! 1
   \<and> IsSettableFrom example_env suite_map T_int 1
   \<and> IsGettableAs suite_map T_bool 1
   \<and> fst (set_via example_env (BY_NAME ''enabled'') T_int (IntV 5) suite_map) = Inr ()
   \<and> get_via example_env (BY_NAME ''enabled'') T_bool
        (snd (set_via example_env (BY_NAME ''enabled'') T_int (IntV 5) suite_map))
       = Inr (BoolV True)
   \<and> get_via example_env (BY_NAME ''enabled'') T_bool
        (snd (set_via example_env (BY_NAME ''enabled'') T_int (IntV 5) suite_map))
       \<noteq> Inr (IntV 5)"
  by code_simp

section \<open>Overwriting a slot\<close>

text \<open>
  C9, as the code has it. Let slot \<open>i\<close> hold a value, and let a \<open>set\<close> call with a value
  \<open>v'\<close> of a type convertible to the slot's base type address slot \<open>i\<close>: by the index
  \<open>i\<close>, or by a name for which \<open>i\<close> is the lowest slot that matches and accepts the
  type. The call succeeds; \<open>get\<close> on slot \<open>i\<close> then returns \<open>v'\<close> converted to the
  slot's base type; and outcome and container are what the same call gives when the
  slot is empty, so nothing of the old value is left.
\<close>

theorem set_overwrites:
  assumes wf: "well_formed pm" and i: "i < n_parameters pm"
    and occupied: "snd (m_stored_values pm ! i) = Some old"
    and conv: "IsSettableFrom E pm T i"
    and sm: "sm = BY_NAME name \<and> m_parameter_name_hashes pm ! i = std_hash E name
               \<and> (\<forall>j < i. m_parameter_name_hashes pm ! j = std_hash E name
                      \<longrightarrow> \<not> IsSettableFrom E pm T j)
             \<or> sm = BY_RT_INDEX i \<or> sm = BY_CT_INDEX i"
    and gm: "gm = BY_NAME name \<and> m_parameter_name_hashes pm ! i = std_hash E name
               \<and> (\<forall>j < i. m_parameter_name_hashes pm ! j = std_hash E name
                      \<longrightarrow> \<not> IsGettableAs pm (BaseTypeAt pm i) j)
             \<or> gm = BY_RT_INDEX i \<or> gm = BY_CT_INDEX i"
  shows "fst (set_via E sm T v' pm) = Inr ()
       \<and> get_via E gm (BaseTypeAt pm i) (snd (set_via E sm T v' pm))
           = Inr (convert E T (BaseTypeAt pm i) v')
       \<and> set_via E sm T v' pm
           = set_via E sm T v'
               (pm\<lparr> m_stored_values := (m_stored_values pm)[i := (BaseTypeAt pm i, None)] \<rparr>)"
proof -
  let ?cv = "convert E T (BaseTypeAt pm i) v'"
  let ?pm' = "pm\<lparr> m_stored_values := (m_stored_values pm)[i := (BaseTypeAt pm i, Some ?cv)] \<rparr>"
  let ?pm0 = "pm\<lparr> m_stored_values := (m_stored_values pm)[i := (BaseTypeAt pm i, None)] \<rparr>"
  have conv': "is_convertible_v E T (BaseTypeAt pm i)"
    using conv by (simp add: IsSettableFrom_def)
  have ct: "set_ct E i T v' pm = (Inr (), ?pm')"
    using i conv' by (rule set_ct_ok)
  have by_index: "set_by_index E i T v' pm = set_ct E i T v' pm"
    using i conv' by (rule set_by_index_ok)
  have by_name: "set_by_name E name T v' pm = set_ct E i T v' pm"
    if "m_parameter_name_hashes pm ! i = std_hash E name"
      and "\<forall>j < i. m_parameter_name_hashes pm ! j = std_hash E name \<longrightarrow> \<not> IsSettableFrom E pm T j"
    using wf i that conv' by (intro set_by_name_ok) (auto simp: IsSettableFrom_def)
  have set: "set_via E sm T v' pm = (Inr (), ?pm')"
    using sm ct by_index by_name by (auto simp: set_via_def)
  have n0: "n_parameters ?pm0 = n_parameters pm" by simp
  have wf0: "well_formed ?pm0" using wf by simp
  have i0: "i < n_parameters ?pm0" using i by simp
  have ty0: "\<And>j. j < n_parameters pm \<Longrightarrow> BaseTypeAt ?pm0 j = BaseTypeAt pm j" by simp
  have conv0: "is_convertible_v E T (BaseTypeAt ?pm0 i)" using conv' i by (simp add: ty0)
  have ct0: "set_ct E i T v' ?pm0 = (Inr (), ?pm')"
    using i conv' by (simp add: set_ct_ok [OF i0 conv0] ty0)
  have by_index0: "set_by_index E i T v' ?pm0 = set_ct E i T v' ?pm0"
    using i0 conv0 by (rule set_by_index_ok)
  have by_name0: "set_by_name E name T v' ?pm0 = set_ct E i T v' ?pm0"
    if "m_parameter_name_hashes pm ! i = std_hash E name"
      and "\<forall>j < i. m_parameter_name_hashes pm ! j = std_hash E name \<longrightarrow> \<not> IsSettableFrom E pm T j"
  proof (rule set_by_name_ok [OF wf0 i0 _ conv0])
    show "m_parameter_name_hashes ?pm0 ! i = std_hash E name" using that(1) by simp
    fix j assume j: "j < i" and m: "m_parameter_name_hashes ?pm0 ! j = std_hash E name"
    then have "\<not> IsSettableFrom E pm T j" using that(2) by simp
    moreover have "BaseTypeAt ?pm0 j = BaseTypeAt pm j" using j i by (intro ty0) simp
    ultimately show "\<not> is_convertible_v E T (BaseTypeAt ?pm0 j)"
      by (simp add: IsSettableFrom_def)
  qed
  have set0: "set_via E sm T v' ?pm0 = (Inr (), ?pm')"
    using sm ct0 by_index0 by_name0 by (auto simp: set_via_def)
  have wf': "well_formed ?pm'" using wf by simp
  have i': "i < n_parameters ?pm'" using i by simp
  have ty': "\<And>j. j < n_parameters pm \<Longrightarrow> BaseTypeAt ?pm' j = BaseTypeAt pm j" by simp
  have slot: "snd (m_stored_values ?pm' ! i) = Some ?cv"
    using i by (rule slot_after_store)
  have get_ct': "get_ct i ?pm' = Inr ?cv"
    using i' slot by (simp add: get_ct_eq del: n_parameters_update)
  have g_index: "get_by_index (BaseTypeAt pm i) i ?pm' = get_ct i ?pm'"
    using i' ty' i by (intro get_by_index_ok) auto
  have g_name: "get_by_name E (BaseTypeAt pm i) name ?pm' = get_ct i ?pm'"
    if "m_parameter_name_hashes pm ! i = std_hash E name"
      and "\<forall>j < i. m_parameter_name_hashes pm ! j = std_hash E name
              \<longrightarrow> \<not> IsGettableAs pm (BaseTypeAt pm i) j"
  proof (rule get_by_name_ok [OF wf' i'])
    show "m_parameter_name_hashes ?pm' ! i = std_hash E name" using that(1) by simp
    show "BaseTypeAt pm i = BaseTypeAt ?pm' i" using i by (simp add: ty')
    fix j assume j: "j < i" and m: "m_parameter_name_hashes ?pm' ! j = std_hash E name"
    then have "\<not> IsGettableAs pm (BaseTypeAt pm i) j" using that(2) by simp
    moreover have "BaseTypeAt ?pm' j = BaseTypeAt pm j" using j i by (intro ty') simp
    ultimately show "BaseTypeAt pm i \<noteq> BaseTypeAt ?pm' j"
      by (simp add: IsGettableAs_def)
  qed
  have get: "get_via E gm (BaseTypeAt pm i) ?pm' = Inr ?cv"
    using gm get_ct' g_index g_name by (auto simp: get_via_def)
  show ?thesis
    using set set0 get by simp
qed

theorem set_overwrites_witness:
  "well_formed full_map \<and> (1::nat) < n_parameters full_map
   \<and> snd (m_stored_values full_map ! 1) = Some (BoolV True)
   \<and> IsSettableFrom example_env full_map T_bool 1
   \<and> m_parameter_name_hashes full_map ! 1 = std_hash example_env ''enabled''
   \<and> m_parameter_name_hashes full_map ! 0 \<noteq> std_hash example_env ''enabled''
   \<and> BaseTypeAt full_map 1 = T_bool
   \<and> convert example_env T_bool (BaseTypeAt full_map 1) (BoolV False) = BoolV False
   \<and> fst (set_via example_env (BY_NAME ''enabled'') T_bool (BoolV False) full_map) = Inr ()
   \<and> get_via example_env (BY_RT_INDEX 1) (BaseTypeAt full_map 1)
        (snd (set_via example_env (BY_NAME ''enabled'') T_bool (BoolV False) full_map))
       = Inr (convert example_env T_bool (BaseTypeAt full_map 1) (BoolV False))
   \<and> set_via example_env (BY_NAME ''enabled'') T_bool (BoolV False) full_map
       = set_via example_env (BY_NAME ''enabled'') T_bool (BoolV False)
           (full_map\<lparr> m_stored_values :=
              (m_stored_values full_map)[1 := (BaseTypeAt full_map 1, None)] \<rparr>)"
proof -
  have wf: "well_formed full_map" by (rule full_map_facts)
  have i: "(1::nat) < n_parameters full_map" by (simp add: full_map_facts)
  have occupied: "snd (m_stored_values full_map ! 1) = Some (BoolV True)"
    by (simp add: full_map_def)
  have conv: "IsSettableFrom example_env full_map T_bool 1"
    by (simp add: IsSettableFrom_def full_map_facts example_env_def)
  have at: "m_parameter_name_hashes full_map ! 1 = std_hash example_env ''enabled''"
    by (simp add: full_map_facts example_env_def)
  have lower: "\<forall>j < 1. m_parameter_name_hashes full_map ! j = std_hash example_env ''enabled''
          \<longrightarrow> \<not> IsSettableFrom example_env full_map T_bool j"
    by (simp add: full_map_facts example_env_def)
  have ty: "BaseTypeAt full_map 1 = T_bool" by (rule full_map_facts)
  have cv: "convert example_env T_bool (BaseTypeAt full_map 1) (BoolV False) = BoolV False"
    by (simp add: full_map_facts example_env_def)
  have "fst (set_via example_env (BY_NAME ''enabled'') T_bool (BoolV False) full_map) = Inr ()
       \<and> get_via example_env (BY_RT_INDEX 1) (BaseTypeAt full_map 1)
            (snd (set_via example_env (BY_NAME ''enabled'') T_bool (BoolV False) full_map))
           = Inr (convert example_env T_bool (BaseTypeAt full_map 1) (BoolV False))
       \<and> set_via example_env (BY_NAME ''enabled'') T_bool (BoolV False) full_map
           = set_via example_env (BY_NAME ''enabled'') T_bool (BoolV False)
               (full_map\<lparr> m_stored_values :=
                  (m_stored_values full_map)[1 := (BaseTypeAt full_map 1, None)] \<rparr>)"
    using at lower
    by (intro set_overwrites [OF wf i occupied conv, of _ "''enabled''"]) simp_all
  moreover have "m_parameter_name_hashes full_map ! 0 \<noteq> std_hash example_env ''enabled''"
    by (simp add: full_map_facts example_env_def)
  ultimately show ?thesis
    using wf i occupied conv at ty cv by blast
qed

text \<open>
  Here too the value read back can differ from the value given: slot 1 of the test
  suite's container holds \<^verbatim>\<open>false\<close>, \<^verbatim>\<open>set(1, 5)\<close> overwrites it, and
  \<^verbatim>\<open>get<bool>(1)\<close> returns \<^verbatim>\<open>true\<close>, not 5.
\<close>

theorem set_overwrite_counterexample:
  "get_via example_env (BY_RT_INDEX 1) T_bool
      (snd (set_via example_env (BY_RT_INDEX 1) T_bool (BoolV False) suite_map))
     = Inr (BoolV False)
   \<and> IsSettableFrom example_env
        (snd (set_via example_env (BY_RT_INDEX 1) T_bool (BoolV False) suite_map)) T_int 1
   \<and> fst (set_via example_env (BY_RT_INDEX 1) T_int (IntV 5)
            (snd (set_via example_env (BY_RT_INDEX 1) T_bool (BoolV False) suite_map)))
       = Inr ()
   \<and> get_via example_env (BY_RT_INDEX 1) T_bool
        (snd (set_via example_env (BY_RT_INDEX 1) T_int (IntV 5)
               (snd (set_via example_env (BY_RT_INDEX 1) T_bool (BoolV False) suite_map))))
       = Inr (BoolV True)
   \<and> get_via example_env (BY_RT_INDEX 1) T_bool
        (snd (set_via example_env (BY_RT_INDEX 1) T_int (IntV 5)
               (snd (set_via example_env (BY_RT_INDEX 1) T_bool (BoolV False) suite_map))))
       \<noteq> Inr (IntV 5)"
  by code_simp


end
